theory Spec2Isabelle
  imports Main
begin

section \<open>Python values used by telegram\_monitor.py\<close>

text \<open>
  A Python \<open>str\<close> is a sequence of Unicode code points, so \<open>len\<close> and slicing count
  code points: the model keeps a string as the list of its code points. The notification
  templates of the source hold emoji, written here by their code points.
\<close>

type_synonym str = "nat list"

definition ascii :: "string \<Rightarrow> str" where
  "ascii s = map of_char s"

definition nl :: str where
  "nl = [10]"

text \<open>\<open>str(n)\<close> for an integer, as an f-string field prints it.\<close>

function digits_of :: "nat \<Rightarrow> str" where
  "digits_of n = (if n < 10 then [48 + n] else digits_of (n div 10) @ [48 + n mod 10])"
  by pat_completeness auto
termination
  by (relation "measure id") auto

declare digits_of.simps [simp del]

definition str_int :: "int \<Rightarrow> str" where
  "str_int i = (if i < 0 then 45 # digits_of (nat (- i)) else digits_of (nat i))"

text \<open>
  \<open>str.strip()\<close> removes leading and trailing whitespace; the whitespace code points are
  those of \<open>str.isspace\<close>. \<open>str.lower()\<close> is modelled on the ASCII letters; code points
  outside \<open>A-Z\<close> are kept as they are (the Unicode case tables are not part of the model).
\<close>

definition is_space :: "nat \<Rightarrow> bool" where
  "is_space c = ((9 \<le> c \<and> c \<le> 13) \<or> (28 \<le> c \<and> c \<le> 32) \<or> c = 133 \<or> c = 160 \<or> c = 5760
     \<or> (8192 \<le> c \<and> c \<le> 8202) \<or> c = 8232 \<or> c = 8233 \<or> c = 8239 \<or> c = 8287 \<or> c = 12288)"

definition py_strip :: "str \<Rightarrow> str" where
  "py_strip s = rev (dropWhile is_space (rev (dropWhile is_space s)))"

definition lower_cp :: "nat \<Rightarrow> nat" where
  "lower_cp c = (if 65 \<le> c \<and> c \<le> 90 then c + 32 else c)"

definition py_lower :: "str \<Rightarrow> str" where
  "py_lower s = map lower_cp s"

text \<open>\<open>sep.join(xs)\<close>.\<close>

fun py_join :: "str \<Rightarrow> str list \<Rightarrow> str" where
  "py_join sep [] = []"
| "py_join sep [x] = x"
| "py_join sep (x # y # ys) = x @ sep @ py_join sep (y # ys)"

text \<open>
  The exceptions the program meets. Each carries its message, which the source prints
  with \<open>{e}\<close>. \<open>TelegramError\<close> is the base class of every error that a request of the bot
  library raises; \<open>OtherError\<close> stands for any other subclass of \<open>Exception\<close>.
\<close>

datatype exn =
    ValueError str
  | Exception str
  | TelegramError str
  | AttributeError str
  | OtherError str

fun exn_str :: "exn \<Rightarrow> str" where
  "exn_str (ValueError m) = m"
| "exn_str (Exception m) = m"
| "exn_str (TelegramError m) = m"
| "exn_str (AttributeError m) = m"
| "exn_str (OtherError m) = m"

fun is_TelegramError :: "exn \<Rightarrow> bool" where
  "is_TelegramError (TelegramError m) = True"
| "is_TelegramError e = False"

text \<open>
  \<open>int(s)\<close> on a string: surrounding whitespace is dropped, a sign may lead, and the digits
  may be grouped by single underscores. Anything else raises \<open>ValueError\<close>. The message
  quotes the literal (the model writes it between apostrophes). Decimal digits of other
  scripts, which Python also accepts, are not modelled.
\<close>

definition is_digit :: "nat \<Rightarrow> bool" where
  "is_digit c = (48 \<le> c \<and> c \<le> 57)"

fun valid_digits :: "str \<Rightarrow> bool" where
  "valid_digits [] = False"
| "valid_digits [c] = is_digit c"
| "valid_digits (c # d # r) =
     (is_digit c \<and> (if d = 95 then valid_digits r else valid_digits (d # r)))"

definition digits_value :: "str \<Rightarrow> int" where
  "digits_value ds = foldl (\<lambda>a c. 10 * a + (int c - 48)) 0 (filter (\<lambda>c. c \<noteq> 95) ds)"

definition invalid_literal :: "str \<Rightarrow> exn" where
  "invalid_literal s =
     ValueError (ascii ''invalid literal for int() with base 10: '' @ [39] @ s @ [39])"

definition py_int :: "str \<Rightarrow> exn + int" where
  "py_int s =
     (case py_strip s of
        [] \<Rightarrow> Inl (invalid_literal s)
      | c # r \<Rightarrow>
          if c = 45 then (if valid_digits r then Inr (- digits_value r) else Inl (invalid_literal s))
          else if c = 43 then (if valid_digits r then Inr (digits_value r) else Inl (invalid_literal s))
          else if valid_digits (c # r) then Inr (digits_value (c # r))
          else Inl (invalid_literal s))"

section \<open>Logging\<close>

datatype level = INFO | WARNING | ERROR

type_synonym log_entry = "level \<times> str"

section \<open>Configuration: \<open>PublicChannelMonitor.__init__\<close> and \<open>_validate_config\<close>\<close>

text \<open>The process environment: \<open>os.getenv(k, d)\<close> is the value of \<open>k\<close>, or \<open>d\<close> when unset.\<close>

type_synonym environ = "string \<Rightarrow> str option"

definition getenv :: "environ \<Rightarrow> string \<Rightarrow> str \<Rightarrow> str" where
  "getenv env k d = (case env k of None \<Rightarrow> d | Some v \<Rightarrow> v)"

record config =
  api_id :: int
  api_hash :: str
  phone_number :: str
  bot_token :: str
  user_id :: int
  channel_username :: str
  notification_interval :: int

text \<open>The values of the \<open>required_vars\<close> dictionary are integers or strings.\<close>

datatype pyval = IntV int | StrV str

fun truthy :: "pyval \<Rightarrow> bool" where
  "truthy (IntV i) = (i \<noteq> 0)"
| "truthy (StrV s) = (s \<noteq> [])"

fun is_zero_int :: "pyval \<Rightarrow> bool" where
  "is_zero_int (IntV i) = (i = 0)"
| "is_zero_int (StrV s) = False"

text \<open>A dictionary literal iterates in the order it is written: an association list.\<close>

definition required_vars :: "config \<Rightarrow> (string \<times> pyval) list" where
  "required_vars c =
     [(''API_ID'', IntV (api_id c)),
      (''API_HASH'', StrV (api_hash c)),
      (''PHONE_NUMBER'', StrV (phone_number c)),
      (''BOT_TOKEN'', StrV (bot_token c)),
      (''USER_ID'', IntV (user_id c)),
      (''CHANNEL_USERNAME'', StrV (channel_username c))]"

definition missing_vars :: "config \<Rightarrow> string list" where
  "missing_vars c =
     map fst (filter (\<lambda>(var, v). \<not> truthy v \<or> is_zero_int v) (required_vars c))"

definition missing_message :: "string list \<Rightarrow> str" where
  "missing_message names =
     ascii ''Missing required environment variables: '' @ py_join (ascii '', '') (map ascii names)"

definition validate_config :: "config \<Rightarrow> log_entry list \<times> exn option" where
  "validate_config c =
     (if missing_vars c \<noteq> []
      then ([(ERROR, missing_message (missing_vars c))],
            Some (ValueError (missing_message (missing_vars c))))
      else ([(INFO, ascii ''Configuration validated successfully'')], None))"

text \<open>
  \<open>__init__\<close> reads the seven settings in the order of the source (lines 24 to 30), so the
  first \<open>int()\<close> that fails decides the exception, and validates only afterwards.
\<close>

definition init :: "environ \<Rightarrow> log_entry list \<times> (exn + config)" where
  "init env =
     (case py_int (getenv env ''API_ID'' (ascii ''0'')) of
        Inl e \<Rightarrow> ([], Inl e)
      | Inr aid \<Rightarrow>
     (case py_int (getenv env ''USER_ID'' (ascii ''0'')) of
        Inl e \<Rightarrow> ([], Inl e)
      | Inr uid \<Rightarrow>
     (case py_int (getenv env ''NOTIFICATION_INTERVAL'' (ascii ''30'')) of
        Inl e \<Rightarrow> ([], Inl e)
      | Inr ni \<Rightarrow>
          let c = \<lparr> api_id = aid,
                    api_hash = getenv env ''API_HASH'' [],
                    phone_number = getenv env ''PHONE_NUMBER'' [],
                    bot_token = getenv env ''BOT_TOKEN'' [],
                    user_id = uid,
                    channel_username = getenv env ''CHANNEL_USERNAME'' [],
                    notification_interval = ni \<rparr>
          in (case validate_config c of
                (lg, Some e) \<Rightarrow> (lg, Inl e)
              | (lg, None) \<Rightarrow> (lg, Inr c)))))"

section \<open>Channel messages and the notification texts\<close>

text \<open>
  What \<open>start_notification_loop\<close> reads of a channel message. \<open>new_message.sender\<close> may be
  \<open>None\<close>; an entity may lack the attribute \<open>first_name\<close> or \<open>username\<close> (outer \<open>None\<close>),
  or hold \<open>None\<close> in it (inner \<open>None\<close>): \<open>getattr\<close> with a default and \<open>hasattr\<close>
  tell the two apart.
\<close>

record entity =
  first_name :: "str option option"
  username :: "str option option"

record datetime =
  year :: nat
  month :: nat
  day :: nat
  hour :: nat
  minute :: nat
  second :: nat

record tg_message =
  msg_text :: "str option"
  msg_sender :: "entity option"
  msg_date :: datetime

definition pad2 :: "nat \<Rightarrow> str" where
  "pad2 n = (if n < 10 then 48 # digits_of n else digits_of n)"

text \<open>\<open>date.strftime("%H:%M:%S %d/%m/%Y")\<close>, for years of four digits.\<close>

definition strftime :: "datetime \<Rightarrow> str" where
  "strftime d =
     pad2 (hour d) @ ascii '':'' @ pad2 (minute d) @ ascii '':'' @ pad2 (second d) @ ascii '' ''
     @ pad2 (day d) @ ascii ''/'' @ pad2 (month d) @ ascii ''/'' @ digits_of (year d)"

text \<open>An f-string field prints \<open>None\<close> as the word None.\<close>

definition fmt_opt :: "str option \<Rightarrow> str" where
  "fmt_opt v = (case v of None \<Rightarrow> ascii ''None'' | Some s \<Rightarrow> s)"

text \<open>Lines 109 to 111.\<close>

definition sender_name :: "tg_message \<Rightarrow> str option" where
  "sender_name m =
     (let first =
        (case msg_sender m of
           None \<Rightarrow> Some (ascii ''Unknown'')
         | Some sd \<Rightarrow> (case first_name sd of None \<Rightarrow> Some (ascii ''Unknown'') | Some v \<Rightarrow> v))
      in case msg_sender m of
           None \<Rightarrow> first
         | Some sd \<Rightarrow>
             (case username sd of
                Some (Some u) \<Rightarrow> if u \<noteq> [] then Some (64 # u) else first
              | _ \<Rightarrow> first))"

text \<open>Line 113: \<open>new_message.text[:150] if new_message.text else "Media message"\<close>.\<close>

definition message_preview :: "tg_message \<Rightarrow> str" where
  "message_preview m =
     (case msg_text m of
        None \<Rightarrow> ascii ''Media message''
      | Some t \<Rightarrow> if t \<noteq> [] then take 150 t else ascii ''Media message'')"

definition timestamp :: "tg_message \<Rightarrow> str" where
  "timestamp m = strftime (msg_date m)"

definition max_notifications :: nat where
  "max_notifications = 25"

text \<open>
  The initial notification (lines 120 to 127): the f-string up to the preview field, the
  preview, and the rest.
\<close>

definition initial_head :: "config \<Rightarrow> str option \<Rightarrow> str \<Rightarrow> str" where
  "initial_head c sn ts =
     [0x1F514] @ ascii '' <b>NEW MESSAGE DETECTED!</b>'' @ nl @ nl
     @ [0x1F4E2] @ ascii '' Channel: <code>'' @ channel_username c @ ascii ''</code>'' @ nl
     @ [0x1F464] @ ascii '' Sender: '' @ fmt_opt sn @ nl
     @ [0x23F0] @ ascii '' Time: '' @ ts @ nl
     @ [0x1F4AC] @ ascii '' Preview: ''"

definition initial_tail :: str where
  "initial_tail = nl @ nl @ [0x1F6D1] @ ascii '' Send /stop to your bot to stop notifications''"

definition initial_text :: "config \<Rightarrow> str option \<Rightarrow> str \<Rightarrow> str \<Rightarrow> str" where
  "initial_text c sn ts preview = initial_head c sn ts @ preview @ initial_tail"

text \<open>
  The escalation alert (lines 136 to 143): the field of the preview is
  \<open>{message_preview[:100]}\<close>, followed by three dots.
\<close>

definition alert_head :: "config \<Rightarrow> str \<Rightarrow> nat \<Rightarrow> str" where
  "alert_head c ts n =
     [0x26A0, 0xFE0F] @ ascii '' <b>ALERT #'' @ digits_of n @ ascii ''</b> '' @ [0x26A0, 0xFE0F] @ nl @ nl
     @ ascii ''You have an unread message from:'' @ nl
     @ [0x1F4E2] @ ascii '' <code>'' @ channel_username c @ ascii ''</code>'' @ nl
     @ [0x23F0] @ ascii '' '' @ ts @ nl @ nl
     @ [0x1F4AC] @ ascii '' <i>''"

definition alert_tail :: str where
  "alert_tail =
     ascii ''</i>'' @ nl @ nl @ [0x1F6D1] @ ascii '' Send /stop to your bot to stop these alerts''"

definition alert_text :: "config \<Rightarrow> str \<Rightarrow> str \<Rightarrow> nat \<Rightarrow> str" where
  "alert_text c ts preview n = alert_head c ts n @ take 100 preview @ ascii ''...'' @ alert_tail"

definition max_text :: str where
  "max_text =
     [0x26A0, 0xFE0F] @ ascii '' Maximum notifications reached. Alerts stopped automatically.''"

definition confirm_text :: str where
  "confirm_text = [0x2705] @ ascii '' Notifications stopped!''"

definition startup_text :: "config \<Rightarrow> str" where
  "startup_text c =
     [0x1F916] @ ascii '' <b>Channel Monitor Started!</b>'' @ nl @ nl
     @ [0x1F4E2] @ ascii '' Monitoring: <code>'' @ channel_username c @ ascii ''</code>'' @ nl
     @ [0x1F50D] @ ascii '' Waiting for new messages...'' @ nl
     @ [0x23F1, 0xFE0F] @ ascii '' Notification interval: '' @ str_int (notification_interval c)
     @ ascii ''s'' @ nl @ nl
     @ [0x2139, 0xFE0F] @ ascii '' Send /stop to stop notifications when they start''"

section \<open>Commands sent to the bot\<close>

text \<open>
  What \<open>check_stop_command\<close> reads of an update: \<open>update.message\<close> and the message's
  \<open>text\<close> may be \<open>None\<close>, and so may \<open>from_user\<close> (kept here by its \<open>id\<close>), which the
  source reads without a test.
\<close>

record bot_message =
  from_user :: "int option"
  btext :: "str option"

record update =
  update_id :: int
  message :: "bot_message option"

text \<open>The condition of lines 161 to 164, with Python's left-to-right \<open>and\<close>.\<close>

definition matches_stop :: "int \<Rightarrow> update \<Rightarrow> exn + bool" where
  "matches_stop uid u =
     (case message u of
        None \<Rightarrow> Inr False
      | Some m \<Rightarrow>
          (case from_user m of
             None \<Rightarrow>
               Inl (AttributeError
                      ([39] @ ascii ''NoneType'' @ [39] @ ascii '' object has no attribute ''
                       @ [39] @ ascii ''id'' @ [39]))
           | Some sender_id \<Rightarrow>
               Inr (sender_id = uid \<and>
                    (case btext m of
                       None \<Rightarrow> False
                     | Some t \<Rightarrow> t \<noteq> [] \<and> py_lower (py_strip t) = ascii ''/stop''))))"

text \<open>
  The \<open>for\<close> loop of line 160: the first update that matches, \<open>None\<close> when the batch has
  none, or the exception raised on the way.
\<close>

fun scan_updates :: "int \<Rightarrow> update list \<Rightarrow> exn + update option" where
  "scan_updates uid [] = Inr None"
| "scan_updates uid (u # us) =
     (case matches_stop uid u of
        Inl e \<Rightarrow> Inl e
      | Inr True \<Rightarrow> Inr (Some u)
      | Inr False \<Rightarrow> scan_updates uid us)"

section \<open>The monitor as cooperating tasks\<close>

text \<open>
  The program runs on one asyncio event loop: the code between two \<open>await\<close>s of a task
  runs without interruption, and at an \<open>await\<close> any other task may run. The model keeps
  one program counter per task, naming the \<open>await\<close> the task is suspended at, and one
  transition per resumption. What the awaited call gives back (a value or an exception)
  comes with the resumption: the transports are outside the program.
\<close>

datatype cycle_pc =
    Created
  | AwaitInitialSend
  | SettleSleep
  | AwaitAlertSend
  | IntervalSleep
  | AwaitMaxSend
  | Finished
  | Crashed exn

text \<open>
  One task of \<open>start_notification_loop\<close>: where it stands, its argument and its counter.
  The other locals (\<open>sender_name\<close>, \<open>message_preview\<close>, \<open>timestamp\<close>) are functions of
  the argument.
\<close>

record cycle =
  pc :: cycle_pc
  new_message :: tg_message
  notification_count :: nat

text \<open>
  The task of \<open>start_monitoring\<close>: \<open>setup_client\<close>, the startup message, then the loop
  over \<open>check_stop_command\<close>. \<open>AwaitConfirm\<close> keeps the \<open>update_id\<close> of the command
  being confirmed.
\<close>

datatype main_pc =
    NotStarted
  | AwaitClientStart
  | AwaitIsAuthorized
  | AwaitStartupSend
  | AwaitGetUpdates
  | AwaitConfirm int
  | AwaitAck
  | PollSleep
  | MainReturned
  | MainFailed exn

record out_msg =
  chat_id :: int
  body :: str
  parse_mode :: "str option"

text \<open>
  The monitor object with its two flags, the tasks, and what the program has done to the
  outside: the messages handed to \<open>bot.send_message\<close> (\<open>sent\<close>), the offsets handed to
  \<open>bot.get_updates(offset=...)\<close> (\<open>acks\<close>), the number of \<open>bot.get_updates(limit=10)\<close>
  calls (\<open>polls\<close>) and the log.
\<close>

record sys =
  cfg :: config
  session_file :: bool
  notification_active :: bool
  stop_requested :: bool
  handler_installed :: bool
  main_pc :: main_pc
  tasks :: "cycle list"
  sent :: "out_msg list"
  acks :: "int list"
  polls :: nat
  logged :: "log_entry list"

datatype retval = VNone | VBool bool | VUpdates "update list"

datatype reply = Returns retval | Raises exn

datatype task_id = MainTask | CycleTask nat

datatype event = NewMessage tg_message | Resume task_id reply

definition log_line :: "level \<Rightarrow> str \<Rightarrow> sys \<Rightarrow> sys" where
  "log_line l m s = s\<lparr>logged := logged s @ [(l, m)]\<rparr>"

definition set_task :: "nat \<Rightarrow> cycle \<Rightarrow> sys \<Rightarrow> sys" where
  "set_task i c s = s\<lparr>tasks := (tasks s)[i := c]\<rparr>"

subsection \<open>\<open>send_notification\<close>\<close>

text \<open>
  The call of \<open>bot.send_message\<close> (lines 92 to 96), and what \<open>send_notification\<close> does when
  the call comes back: a \<open>TelegramError\<close> is logged and swallowed, any other exception
  leaves the function.
\<close>

definition send_notification_call :: "str \<Rightarrow> sys \<Rightarrow> sys" where
  "send_notification_call t s =
     s\<lparr>sent := sent s @ [\<lparr>chat_id = user_id (cfg s), body = t, parse_mode = Some (ascii ''HTML'')\<rparr>]\<rparr>"

definition send_notification_resume :: "reply \<Rightarrow> sys \<Rightarrow> exn option \<times> sys" where
  "send_notification_resume r s =
     (case r of
        Returns v \<Rightarrow> (None, s)
      | Raises e \<Rightarrow>
          if is_TelegramError e
          then (None, log_line ERROR (ascii ''Error sending notification: '' @ exn_str e) s)
          else (Some e, s))"

subsection \<open>\<open>start_notification_loop\<close>\<close>

text \<open>Lines 102 to 128: the guard, the two flags, the locals and the initial notification.\<close>

definition loop_entry :: "nat \<Rightarrow> sys \<Rightarrow> sys" where
  "loop_entry i s =
     (let c = tasks s ! i in
      if notification_active s then set_task i (c\<lparr>pc := Finished\<rparr>) s
      else
        let s1 = s\<lparr>notification_active := True, stop_requested := False\<rparr>;
            s2 = set_task i (c\<lparr>pc := AwaitInitialSend, notification_count := 0\<rparr>) s1
        in send_notification_call
             (initial_text (cfg s) (sender_name (new_message c)) (timestamp (new_message c))
                (message_preview (new_message c)))
             s2)"

text \<open>Lines 153 and 154.\<close>

definition loop_end :: "nat \<Rightarrow> sys \<Rightarrow> sys" where
  "loop_end i s =
     log_line INFO (ascii ''Notification loop ended'')
       (set_task i ((tasks s ! i)\<lparr>pc := Finished\<rparr>) (s\<lparr>notification_active := False\<rparr>))"

text \<open>
  The test of the \<open>while\<close> (line 133) after a sleep: one more alert (lines 134 to 145), or
  the exit (lines 150 to 154).
\<close>

definition loop_head :: "nat \<Rightarrow> sys \<Rightarrow> sys" where
  "loop_head i s =
     (let c = tasks s ! i in
      if notification_active s \<and> \<not> stop_requested s \<and> notification_count c < max_notifications
      then
        let n = notification_count c + 1 in
        send_notification_call
          (alert_text (cfg s) (timestamp (new_message c)) (message_preview (new_message c)) n)
          (set_task i (c\<lparr>pc := AwaitAlertSend, notification_count := n\<rparr>) s)
      else if notification_count c \<ge> max_notifications
      then send_notification_call max_text (set_task i (c\<lparr>pc := AwaitMaxSend\<rparr>) s)
      else loop_end i s)"

definition crash :: "nat \<Rightarrow> exn \<Rightarrow> sys \<Rightarrow> sys" where
  "crash i e s = set_task i ((tasks s ! i)\<lparr>pc := Crashed e\<rparr>) s"

text \<open>
  One resumption of the task \<open>i\<close>. A sleep gives back nothing and cannot fail; a reply
  that the awaited call cannot give leaves the state as it is.
\<close>

definition cycle_resume :: "nat \<Rightarrow> reply \<Rightarrow> sys \<Rightarrow> sys" where
  "cycle_resume i r s =
     (let c = tasks s ! i in
      case pc c of
        Created \<Rightarrow> (case r of Returns v \<Rightarrow> loop_entry i s | Raises e \<Rightarrow> s)
      | AwaitInitialSend \<Rightarrow>
          (case send_notification_resume r s of
             (Some e, s') \<Rightarrow> crash i e s'
           | (None, s') \<Rightarrow> set_task i (c\<lparr>pc := SettleSleep\<rparr>) s')
      | SettleSleep \<Rightarrow> (case r of Returns v \<Rightarrow> loop_head i s | Raises e \<Rightarrow> s)
      | AwaitAlertSend \<Rightarrow>
          (case send_notification_resume r s of
             (Some e, s') \<Rightarrow> crash i e s'
           | (None, s') \<Rightarrow>
               log_line INFO (ascii ''Sent alert notification #'' @ digits_of (notification_count c))
                 (set_task i (c\<lparr>pc := IntervalSleep\<rparr>) s'))
      | IntervalSleep \<Rightarrow> (case r of Returns v \<Rightarrow> loop_head i s | Raises e \<Rightarrow> s)
      | AwaitMaxSend \<Rightarrow>
          (case send_notification_resume r s of
             (Some e, s') \<Rightarrow> crash i e s'
           | (None, s') \<Rightarrow> loop_end i s')
      | Finished \<Rightarrow> s
      | Crashed e \<Rightarrow> s)"

subsection \<open>\<open>setup_client\<close>, \<open>start_monitoring\<close> and \<open>check_stop_command\<close>\<close>

text \<open>Lines 65 to 77, up to the call of \<open>client.start\<close>.\<close>

definition setup_client_begin :: "sys \<Rightarrow> sys" where
  "setup_client_begin s =
     (let s1 = log_line INFO (ascii ''Setting up Telegram client...'') s;
          s2 = (if \<not> session_file s
                then log_line WARNING
                       (ascii ''You may need to run this interactively first to authenticate.'')
                       (log_line WARNING
                          (ascii ''No existing session found. First-time setup required.'') s1)
                else s1)
      in s2\<lparr>main_pc := AwaitClientStart\<rparr>)"

text \<open>Lines 79 to 87, once \<open>is_user_authorized\<close> has answered.\<close>

definition setup_client_finish :: "bool \<Rightarrow> sys \<Rightarrow> exn option \<times> sys" where
  "setup_client_finish authorized s =
     (if \<not> authorized
      then (Some (Exception (ascii ''Authentication required'')),
            log_line ERROR (ascii ''Please run the script interactively first to authenticate.'')
              (log_line ERROR (ascii ''User not authorized. Session may be invalid or missing.'') s))
      else (None, log_line INFO (ascii ''Client and bot setup complete'') s))"

text \<open>Lines 186 to 189: \<open>start_monitoring\<close> logs the failure of the setup and returns.\<close>

definition setup_failed :: "exn \<Rightarrow> sys \<Rightarrow> sys" where
  "setup_failed e s =
     (log_line ERROR (ascii ''Make sure you have run the initial authentication setup.'')
        (log_line ERROR (ascii ''Failed to setup client: '' @ exn_str e) s))
     \<lparr>main_pc := MainReturned\<rparr>"

text \<open>
  An exception that leaves \<open>start_monitoring\<close> reaches \<open>main\<close> (lines 233 to 236), which
  logs it, runs \<open>stop_monitoring\<close> (both flags, the client disconnected) and raises it again.
\<close>

definition main_failed :: "exn \<Rightarrow> sys \<Rightarrow> sys" where
  "main_failed e s =
     (log_line ERROR (ascii ''Monitor error: '' @ exn_str e) s)
     \<lparr>notification_active := False, stop_requested := True, handler_installed := False,
      main_pc := MainFailed e\<rparr>"

text \<open>Line 159: \<open>check_stop_command\<close> asks for the pending updates.\<close>

definition poll_begin :: "sys \<Rightarrow> sys" where
  "poll_begin s = s\<lparr>polls := polls s + 1, main_pc := AwaitGetUpdates\<rparr>"

text \<open>Lines 178 to 180 and 213: the exception is logged, the poll answers False, the loop sleeps.\<close>

definition poll_error :: "exn \<Rightarrow> sys \<Rightarrow> sys" where
  "poll_error e s =
     (log_line ERROR (ascii ''Error checking for stop command: '' @ exn_str e) s)
     \<lparr>main_pc := PollSleep\<rparr>"

text \<open>Lines 166 to 172: both flags, then the confirmation is handed to the bot.\<close>

definition stop_found :: "update \<Rightarrow> sys \<Rightarrow> sys" where
  "stop_found u s =
     (let s1 = s\<lparr>stop_requested := True, notification_active := False\<rparr> in
      s1\<lparr>sent := sent s1 @ [\<lparr>chat_id = user_id (cfg s1), body = confirm_text, parse_mode = None\<rparr>],
         main_pc := AwaitConfirm (update_id u)\<rparr>)"

definition main_resume :: "reply \<Rightarrow> sys \<Rightarrow> sys" where
  "main_resume r s =
     (case main_pc s of
        NotStarted \<Rightarrow> (case r of Returns v \<Rightarrow> setup_client_begin s | Raises e \<Rightarrow> s)
      | AwaitClientStart \<Rightarrow>
          (case r of
             Returns v \<Rightarrow> s\<lparr>main_pc := AwaitIsAuthorized\<rparr>
           | Raises e \<Rightarrow> setup_failed e s)
      | AwaitIsAuthorized \<Rightarrow>
          (case r of
             Returns (VBool b) \<Rightarrow>
               (case setup_client_finish b s of
                  (Some e, s') \<Rightarrow> setup_failed e s'
                | (None, s') \<Rightarrow>
                    send_notification_call (startup_text (cfg s')) (s'\<lparr>main_pc := AwaitStartupSend\<rparr>))
           | Returns v \<Rightarrow> s
           | Raises e \<Rightarrow> setup_failed e s)
      | AwaitStartupSend \<Rightarrow>
          (case send_notification_resume r s of
             (Some e, s') \<Rightarrow> main_failed e s'
           | (None, s') \<Rightarrow>
               poll_begin
                 (log_line INFO (ascii ''Started monitoring '' @ channel_username (cfg s'))
                    (s'\<lparr>handler_installed := True\<rparr>)))
      | AwaitGetUpdates \<Rightarrow>
          (case r of
             Returns (VUpdates us) \<Rightarrow>
               (case scan_updates (user_id (cfg s)) us of
                  Inl e \<Rightarrow> poll_error e s
                | Inr None \<Rightarrow> s\<lparr>main_pc := PollSleep\<rparr>
                | Inr (Some u) \<Rightarrow> stop_found u s)
           | Returns v \<Rightarrow> s
           | Raises e \<Rightarrow> poll_error e s)
      | AwaitConfirm uid \<Rightarrow>
          (case r of
             Returns v \<Rightarrow> s\<lparr>acks := acks s @ [uid + 1], main_pc := AwaitAck\<rparr>
           | Raises e \<Rightarrow> poll_error e s)
      | AwaitAck \<Rightarrow>
          (case r of
             Returns v \<Rightarrow> (log_line INFO (ascii ''Stop command received'') s)\<lparr>main_pc := PollSleep\<rparr>
           | Raises e \<Rightarrow> poll_error e s)
      | PollSleep \<Rightarrow> (case r of Returns v \<Rightarrow> poll_begin s | Raises e \<Rightarrow> s)
      | MainReturned \<Rightarrow> s
      | MainFailed e \<Rightarrow> s)"

subsection \<open>The event loop\<close>

text \<open>
  The handler of lines 201 to 206 logs and creates a task of \<open>start_notification_loop\<close>;
  the task runs its first lines when the event loop first resumes it.
\<close>

definition handler :: "tg_message \<Rightarrow> sys \<Rightarrow> sys" where
  "handler m s =
     (log_line INFO (ascii ''New message detected in '' @ channel_username (cfg s)) s)
     \<lparr>tasks := tasks s @ [\<lparr>pc = Created, new_message = m, notification_count = 0\<rparr>]\<rparr>"

fun step :: "event \<Rightarrow> sys \<Rightarrow> sys" where
  "step (NewMessage m) s = (if handler_installed s then handler m s else s)"
| "step (Resume MainTask r) s = main_resume r s"
| "step (Resume (CycleTask i) r) s = (if i < length (tasks s) then cycle_resume i r s else s)"

fun run :: "event list \<Rightarrow> sys \<Rightarrow> sys" where
  "run [] s = s"
| "run (e # es) s = run es (step e s)"

definition initial_sys :: "config \<Rightarrow> bool \<Rightarrow> log_entry list \<Rightarrow> sys" where
  "initial_sys c file lg =
     \<lparr>cfg = c, session_file = file, notification_active = False, stop_requested = False,
      handler_installed = False, main_pc = NotStarted, tasks = [], sent = [], acks = [],
      polls = 0, logged = lg\<rparr>"

text \<open>
  \<open>main\<close> (lines 226 to 229): the monitor is built outside the \<open>try\<close>, so an exception of
  \<open>__init__\<close> ends the process before any task exists.
\<close>

definition launch :: "environ \<Rightarrow> bool \<Rightarrow> exn + sys" where
  "launch env file =
     (case init env of
        (lg, Inl e) \<Rightarrow> Inl e
      | (lg, Inr c) \<Rightarrow> Inr (initial_sys c file lg))"

section \<open>Vocabulary of the properties\<close>

text \<open>A notification as \<open>send_notification\<close> hands it to the bot.\<close>

definition notification :: "sys \<Rightarrow> str \<Rightarrow> out_msg" where
  "notification s t = \<lparr>chat_id = user_id (cfg s), body = t, parse_mode = Some (ascii ''HTML'')\<rparr>"

text \<open>
  The state once \<open>start_monitoring\<close> has set the client up (the session file exists, the
  user is authorized), sent the startup message and called \<open>get_updates\<close> for the first time.
\<close>

definition started :: "config \<Rightarrow> sys" where
  "started c =
     run [Resume MainTask (Returns VNone), Resume MainTask (Returns VNone),
          Resume MainTask (Returns (VBool True)), Resume MainTask (Returns VNone)]
       (initial_sys c True [])"

subsection \<open>Concrete inputs\<close>

definition example_config :: config where
  "example_config =
     \<lparr>api_id = 1, api_hash = ascii ''h'', phone_number = ascii ''+1'', bot_token = ascii ''t'',
      user_id = 7, channel_username = ascii ''@chan'', notification_interval = 30\<rparr>"

definition example_date :: datetime where
  "example_date = \<lparr>year = 2024, month = 5, day = 3, hour = 9, minute = 4, second = 59\<rparr>"

definition long_message :: tg_message where
  "long_message = \<lparr>msg_text = Some (replicate 151 97), msg_sender = None, msg_date = example_date\<rparr>"

definition media_message :: tg_message where
  "media_message = \<lparr>msg_text = None, msg_sender = None, msg_date = example_date\<rparr>"

text \<open>A message has arrived and its task is created; the task sleeps after its initial notification.\<close>

definition created_example :: "tg_message \<Rightarrow> sys" where
  "created_example m = run [NewMessage m] (started example_config)"

definition settled_example :: "tg_message \<Rightarrow> sys" where
  "settled_example m =
     run [NewMessage m, Resume (CycleTask 0) (Returns VNone), Resume (CycleTask 0) (Returns VNone)]
       (started example_config)"

subsection \<open>Settings of the environment\<close>

text \<open>
  A setting read with \<open>int()\<close> is well formed when it is unset or holds an integer literal.
  A required setting is missing when it is unset or holds the zero of its type: an integer
  literal of value 0 for API\_ID and USER\_ID, the empty string for the others.
\<close>

definition parses :: "environ \<Rightarrow> string \<Rightarrow> bool" where
  "parses env k =
     (case env k of
        None \<Rightarrow> True
      | Some v \<Rightarrow> (case py_int v of Inl e \<Rightarrow> False | Inr i \<Rightarrow> True))"

definition int_setting_missing :: "environ \<Rightarrow> string \<Rightarrow> bool" where
  "int_setting_missing env k = (case env k of None \<Rightarrow> True | Some v \<Rightarrow> py_int v = Inr 0)"

definition str_setting_missing :: "environ \<Rightarrow> string \<Rightarrow> bool" where
  "str_setting_missing env k = (case env k of None \<Rightarrow> True | Some v \<Rightarrow> v = [])"

definition missing_settings :: "environ \<Rightarrow> string list" where
  "missing_settings env =
     (if int_setting_missing env ''API_ID'' then [''API_ID''] else [])
     @ (if str_setting_missing env ''API_HASH'' then [''API_HASH''] else [])
     @ (if str_setting_missing env ''PHONE_NUMBER'' then [''PHONE_NUMBER''] else [])
     @ (if str_setting_missing env ''BOT_TOKEN'' then [''BOT_TOKEN''] else [])
     @ (if int_setting_missing env ''USER_ID'' then [''USER_ID''] else [])
     @ (if str_setting_missing env ''CHANNEL_USERNAME'' then [''CHANNEL_USERNAME''] else [])"

text \<open>
  Three environments: API\_HASH is unset and USER\_ID is not a number; API\_ID is unset and
  CHANNEL\_USERNAME is empty; all six required settings are set and NOTIFICATION\_INTERVAL
  is not.
\<close>

definition bad_environ :: environ where
  "bad_environ = map_of
     [(''API_ID'', ascii ''12345''), (''PHONE_NUMBER'', ascii ''+100''),
      (''BOT_TOKEN'', ascii ''tok''), (''USER_ID'', ascii ''abc''),
      (''CHANNEL_USERNAME'', ascii ''@chan'')]"

definition incomplete_environ :: environ where
  "incomplete_environ = map_of
     [(''API_HASH'', ascii ''h''), (''PHONE_NUMBER'', ascii ''+100''),
      (''BOT_TOKEN'', ascii ''tok''), (''USER_ID'', ascii ''7''), (''CHANNEL_USERNAME'', [])]"

definition complete_environ :: environ where
  "complete_environ = map_of
     [(''API_ID'', ascii ''12345''), (''API_HASH'', ascii ''h''), (''PHONE_NUMBER'', ascii ''+100''),
      (''BOT_TOKEN'', ascii ''tok''), (''USER_ID'', ascii ''7''),
      (''CHANNEL_USERNAME'', ascii ''@chan'')]"

text \<open>The task has sent its first alert and waits for the bot's answer.\<close>

definition alerting_example :: "tg_message \<Rightarrow> sys" where
  "alerting_example m =
     run [NewMessage m, Resume (CycleTask 0) (Returns VNone), Resume (CycleTask 0) (Returns VNone),
          Resume (CycleTask 0) (Returns VNone)]
       (started example_config)"

text \<open>The confirmation as \<open>check_stop_command\<close> hands it to the bot (no parse mode).\<close>

definition confirmation :: "sys \<Rightarrow> out_msg" where
  "confirmation s = \<lparr>chat_id = user_id (cfg s), body = confirm_text, parse_mode = None\<rparr>"

text \<open>A stop command of the configured user, with blanks and capitals.\<close>

definition stop_update :: update where
  "stop_update = \<lparr>update_id = 41, message = Some \<lparr>from_user = Some 7, btext = Some (ascii '' /STOP '')\<rparr>\<rparr>"

text \<open>The task sleeps after its first alert; the poller waits for \<open>get_updates\<close>.\<close>

definition sleeping_example :: "tg_message \<Rightarrow> sys" where
  "sleeping_example m =
     run [NewMessage m, Resume (CycleTask 0) (Returns VNone), Resume (CycleTask 0) (Returns VNone),
          Resume (CycleTask 0) (Returns VNone), Resume (CycleTask 0) (Returns VNone)]
       (started example_config)"

subsection \<open>Measures on a task of the cycle\<close>

text \<open>
  A bound on the turns a task has left: it falls with every turn of the task. And the
  number of events of a run at which the task \<open>i\<close> moves.
\<close>

definition cycle_fuel :: "cycle \<Rightarrow> nat" where
  "cycle_fuel c =
     (case pc c of
        Created \<Rightarrow> 2 * max_notifications + 4
      | AwaitInitialSend \<Rightarrow> 2 * (max_notifications - notification_count c) + 3
      | SettleSleep \<Rightarrow> 2 * (max_notifications - notification_count c) + 2
      | AwaitAlertSend \<Rightarrow> 2 * (max_notifications - notification_count c) + 3
      | IntervalSleep \<Rightarrow> 2 * (max_notifications - notification_count c) + 2
      | AwaitMaxSend \<Rightarrow> 1
      | Finished \<Rightarrow> 0
      | Crashed e \<Rightarrow> 0)"

fun cycle_steps :: "nat \<Rightarrow> event list \<Rightarrow> sys \<Rightarrow> nat" where
  "cycle_steps i [] s = 0"
| "cycle_steps i (e # es) s =
     (if i < length (tasks s) \<and> tasks (step e s) ! i \<noteq> tasks s ! i then 1 else 0)
     + cycle_steps i es (step e s)"


text \<open>
  What one resumption does to the task itself, given the two flags: after a sleep, after a
  send, and in general. The lemma \<open>cycle_resume_task\<close> shows that \<open>cycle_resume\<close>
  changes the task in exactly this way.
\<close>

definition after_sleep :: "sys \<Rightarrow> cycle \<Rightarrow> cycle" where
  "after_sleep s c =
     (if notification_active s \<and> \<not> stop_requested s \<and> notification_count c < max_notifications
      then c\<lparr>pc := AwaitAlertSend, notification_count := notification_count c + 1\<rparr>
      else if max_notifications \<le> notification_count c then c\<lparr>pc := AwaitMaxSend\<rparr>
      else c\<lparr>pc := Finished\<rparr>)"

definition after_send :: "reply \<Rightarrow> cycle_pc \<Rightarrow> cycle \<Rightarrow> cycle" where
  "after_send r p c =
     (case r of
        Returns v \<Rightarrow> c\<lparr>pc := p\<rparr>
      | Raises e \<Rightarrow> if is_TelegramError e then c\<lparr>pc := p\<rparr> else c\<lparr>pc := Crashed e\<rparr>)"

definition cycle_next :: "sys \<Rightarrow> reply \<Rightarrow> cycle \<Rightarrow> cycle" where
  "cycle_next s r c =
     (case pc c of
        Created \<Rightarrow>
          (case r of
             Returns v \<Rightarrow>
               if notification_active s then c\<lparr>pc := Finished\<rparr>
               else c\<lparr>pc := AwaitInitialSend, notification_count := 0\<rparr>
           | Raises e \<Rightarrow> c)
      | AwaitInitialSend \<Rightarrow> after_send r SettleSleep c
      | SettleSleep \<Rightarrow> (case r of Returns v \<Rightarrow> after_sleep s c | Raises e \<Rightarrow> c)
      | AwaitAlertSend \<Rightarrow> after_send r IntervalSleep c
      | IntervalSleep \<Rightarrow> (case r of Returns v \<Rightarrow> after_sleep s c | Raises e \<Rightarrow> c)
      | AwaitMaxSend \<Rightarrow> after_send r Finished c
      | Finished \<Rightarrow> c
      | Crashed e \<Rightarrow> c)"

subsection \<open>Runs without a stop command\<close>

text \<open>The main task is inside its loop over \<open>check_stop_command\<close>.\<close>

definition polling :: "sys \<Rightarrow> bool" where
  "polling s =
     (case main_pc s of
        AwaitGetUpdates \<Rightarrow> True
      | AwaitConfirm k \<Rightarrow> True
      | AwaitAck \<Rightarrow> True
      | PollSleep \<Rightarrow> True
      | _ \<Rightarrow> False)"

text \<open>
  The events of a run in which no further channel message arrives and no poll finds a stop
  command: everything else is allowed (any reply to a send, any other batch, any failure
  of the poller).
\<close>

fun quiet :: "int \<Rightarrow> event \<Rightarrow> bool" where
  "quiet uid (NewMessage m) = False"
| "quiet uid (Resume MainTask (Returns (VUpdates us))) =
     (case scan_updates uid us of Inr (Some u) \<Rightarrow> False | _ \<Rightarrow> True)"
| "quiet uid (Resume t r) = True"

text \<open>The initial notification and the alerts 1 to \<open>n\<close> of the message \<open>m\<close>.\<close>

definition cycle_texts :: "config \<Rightarrow> tg_message \<Rightarrow> nat \<Rightarrow> str list" where
  "cycle_texts c m n =
     initial_text c (sender_name m) (timestamp m) (message_preview m)
     # map (alert_text c (timestamp m) (message_preview m)) [1..<Suc n]"

text \<open>
  What holds throughout such a run when \<open>s0\<close> is the state in which the message \<open>m\<close>
  arrived: the one task, where it stands, the flags and the messages sent so far.
\<close>

definition quiet_inv :: "sys \<Rightarrow> tg_message \<Rightarrow> sys \<Rightarrow> bool" where
  "quiet_inv s0 m s =
     (polling s \<and> cfg s = cfg s0 \<and> length (tasks s) = 1 \<and> new_message (tasks s ! 0) = m
      \<and> (let c = tasks s ! 0; n = notification_count c;
              live = (notification_active s \<and> \<not> stop_requested s);
              so_far = (\<lambda>k. sent s0 @ map (notification s0) (cycle_texts (cfg s0) m k))
          in case pc c of
               Created \<Rightarrow> \<not> notification_active s \<and> sent s = sent s0
             | AwaitInitialSend \<Rightarrow> live \<and> n = 0 \<and> sent s = so_far 0
             | SettleSleep \<Rightarrow> live \<and> n = 0 \<and> sent s = so_far 0
             | AwaitAlertSend \<Rightarrow> live \<and> n \<le> max_notifications \<and> sent s = so_far n
             | IntervalSleep \<Rightarrow> live \<and> n \<le> max_notifications \<and> sent s = so_far n
             | AwaitMaxSend \<Rightarrow>
                 n = max_notifications
                 \<and> sent s = so_far max_notifications @ [notification s0 max_text]
             | Finished \<Rightarrow>
                 \<not> notification_active s \<and> n = max_notifications
                 \<and> sent s = so_far max_notifications @ [notification s0 max_text]
             | Crashed e \<Rightarrow> True))"


text \<open>A stop command of another user, and a run of one cycle to its end with three polls.\<close>

definition other_update :: update where
  "other_update = \<lparr>update_id = 40, message = Some \<lparr>from_user = Some 8, btext = Some (ascii ''/stop'')\<rparr>\<rparr>"


subsection \<open>Runs after a stop command\<close>

text \<open>The events of a run in which no further channel message arrives.\<close>

fun no_new_message :: "event \<Rightarrow> bool" where
  "no_new_message (NewMessage m) = False"
| "no_new_message (Resume t r) = True"

text \<open>
  A stop command has been seen: both flags say so, and no task is still waiting to run
  its first lines (which would start a new cycle).
\<close>

definition stopped :: "sys \<Rightarrow> bool" where
  "stopped s = (stop_requested s \<and> \<not> notification_active s
     \<and> list_all (\<lambda>c. pc c \<noteq> Created) (tasks s))"

text \<open>A bound on the turns a task has left once a flag says stop.\<close>

definition stopped_fuel :: "cycle \<Rightarrow> nat" where
  "stopped_fuel c =
     (case pc c of
        Created \<Rightarrow> 4
      | AwaitInitialSend \<Rightarrow> 3
      | SettleSleep \<Rightarrow> 2
      | AwaitAlertSend \<Rightarrow> 3
      | IntervalSleep \<Rightarrow> 2
      | AwaitMaxSend \<Rightarrow> 1
      | Finished \<Rightarrow> 0
      | Crashed e \<Rightarrow> 0)"




subsection \<open>Cycles in progress\<close>






subsection \<open>A stop command that is handled\<close>

text \<open>
  The Bot API confirms an update as soon as \<open>getUpdates\<close> is called with an offset higher
  than its \<open>update_id\<close>: a confirmed update is not delivered again.
\<close>

definition consumed :: "int list \<Rightarrow> update \<Rightarrow> bool" where
  "consumed offsets p = list_ex (\<lambda>off. update_id p < off) offsets"

text \<open>
  A stop command has been seen, the poller is in its loop, and every task is below the
  cap: nothing more has to be sent.
\<close>

definition silent :: "sys \<Rightarrow> bool" where
  "silent s =
     (stopped s \<and> polling s
      \<and> list_all (\<lambda>n. n < max_notifications) (map notification_count (tasks s)))"

text \<open>
  The turns of the task from its first lines to the sleep after its third alert, and the
  state reached by them after one channel message. What follows a stop command there: the
  confirmation and the acknowledgement succeed, the task wakes, the poller wakes and its
  next batch holds no stop command. An update whose message has no sender. And a run in
  which the confirmation fails and the next poll delivers the stop command again.
\<close>

definition three_alerts :: "event list" where
  "three_alerts =
     [Resume (CycleTask 0) (Returns VNone), Resume (CycleTask 0) (Returns VNone),
      Resume (CycleTask 0) (Returns VNone), Resume (CycleTask 0) (Returns VNone),
      Resume (CycleTask 0) (Returns VNone), Resume (CycleTask 0) (Returns VNone),
      Resume (CycleTask 0) (Returns VNone), Resume (CycleTask 0) (Returns VNone)]"

definition three_alerts_example :: sys where
  "three_alerts_example = run (NewMessage media_message # three_alerts) (started example_config)"

definition after_stop :: "event list" where
  "after_stop =
     [Resume MainTask (Returns VNone), Resume MainTask (Returns VNone),
      Resume (CycleTask 0) (Returns VNone), Resume MainTask (Returns VNone),
      Resume MainTask (Returns (VUpdates [other_update]))]"

definition senderless_update :: update where
  "senderless_update =
     \<lparr>update_id = 39, message = Some \<lparr>from_user = None, btext = Some (ascii ''hello'')\<rparr>\<rparr>"

definition stop_twice :: "event list" where
  "stop_twice =
     [Resume MainTask (Returns (VUpdates [stop_update])),
      Resume MainTask (Raises (TelegramError (ascii ''Timed out''))),
      Resume MainTask (Returns VNone),
      Resume MainTask (Returns (VUpdates [stop_update]))]"

section \<open>Basic facts\<close>

lemmas main_defs = main_resume_def setup_client_begin_def setup_client_finish_def setup_failed_def
  main_failed_def poll_begin_def poll_error_def stop_found_def send_notification_call_def
  send_notification_resume_def log_line_def

lemmas cycle_defs = cycle_resume_def loop_entry_def loop_head_def loop_end_def crash_def
  set_task_def send_notification_call_def send_notification_resume_def log_line_def handler_def

lemma started_fields:
  "cfg (started c) = c" "handler_installed (started c)" "main_pc (started c) = AwaitGetUpdates"
  "tasks (started c) = []" "\<not> notification_active (started c)" "\<not> stop_requested (started c)"
  "sent (started c) = [notification (started c) (startup_text c)]" "acks (started c) = []"
  "polls (started c) = 1"
  by (simp_all add: started_def initial_sys_def main_defs notification_def)

lemma created_example_fields:
  "tasks (created_example m) = [\<lparr>pc = Created, new_message = m, notification_count = 0\<rparr>]"
  "\<not> notification_active (created_example m)" "cfg (created_example m) = example_config"
  "sent (created_example m) = sent (started example_config)"
  by (simp_all add: created_example_def started_fields handler_def log_line_def)

lemma settled_example_fields:
  "tasks (settled_example m) = [\<lparr>pc = SettleSleep, new_message = m, notification_count = 0\<rparr>]"
  "notification_active (settled_example m)" "\<not> stop_requested (settled_example m)"
  "cfg (settled_example m) = example_config"
  by (simp_all add: settled_example_def started_fields cycle_defs)

text \<open>What the first lines of a task send, and what one more turn of the loop sends.\<close>

lemma loop_entry_sent:
  assumes "i < length (tasks s)" "pc (tasks s ! i) = Created" "\<not> notification_active s"
  shows "sent (step (Resume (CycleTask i) (Returns v)) s) =
     sent s @ [notification s (initial_text (cfg s) (sender_name (new_message (tasks s ! i)))
        (timestamp (new_message (tasks s ! i))) (message_preview (new_message (tasks s ! i))))]"
  using assms
  by (simp add: cycle_resume_def loop_entry_def Let_def send_notification_call_def set_task_def
      notification_def)

lemma loop_head_sent:
  assumes "i < length (tasks s)"
    "pc (tasks s ! i) = SettleSleep \<or> pc (tasks s ! i) = IntervalSleep"
    "notification_active s" "\<not> stop_requested s"
    "notification_count (tasks s ! i) < max_notifications"
  shows "sent (step (Resume (CycleTask i) (Returns v)) s) =
     sent s @ [notification s (alert_text (cfg s) (timestamp (new_message (tasks s ! i)))
        (message_preview (new_message (tasks s ! i))) (notification_count (tasks s ! i) + 1))]"
  using assms
  by (auto simp add: cycle_resume_def loop_head_def Let_def send_notification_call_def
      set_task_def notification_def)

section \<open>Previews\<close>

text \<open>
  C5. A message whose body is longer than 150 characters: the initial notification that
  its task sends embeds exactly the first 150 characters of the body as the preview, and
  every alert that the loop of the same task sends embeds exactly the first 100 characters
  of the body followed by three dots. The first state is any state in which the task is
  about to run its first lines, the second any state in which it is about to send one
  more alert.
\<close>

theorem preview_truncation:
  assumes "msg_text m = Some t" and "150 < length t"
    and "i < length (tasks s)" and "new_message (tasks s ! i) = m"
    and "pc (tasks s ! i) = Created" and "\<not> notification_active s"
    and "j < length (tasks s')" and "new_message (tasks s' ! j) = m"
    and "pc (tasks s' ! j) = SettleSleep \<or> pc (tasks s' ! j) = IntervalSleep"
    and "notification_active s'" and "\<not> stop_requested s'"
    and "notification_count (tasks s' ! j) < max_notifications"
  shows "sent (step (Resume (CycleTask i) (Returns v)) s) =
           sent s @ [notification s
             (initial_head (cfg s) (sender_name m) (timestamp m) @ take 150 t @ initial_tail)]
       \<and> length (take 150 t) = 150
       \<and> sent (step (Resume (CycleTask j) (Returns v')) s') =
           sent s' @ [notification s'
             (alert_head (cfg s') (timestamp m) (notification_count (tasks s' ! j) + 1)
              @ take 100 t @ ascii ''...'' @ alert_tail)]
       \<and> length (take 100 t) = 100"
proof -
  have t: "t \<noteq> []" using assms(2) by auto
  have p: "message_preview m = take 150 t"
    using assms(1) t by (simp add: message_preview_def)
  have a: "take 100 (take 150 t) = take 100 t" by simp
  show ?thesis
    using loop_entry_sent[OF assms(3,5,6), of v] loop_head_sent[OF assms(7,9,10,11,12), of v']
      assms(2,4,8)
    by (simp add: p a initial_text_def alert_text_def)
qed

theorem preview_truncation_witness:
  "sent (step (Resume (CycleTask 0) (Returns VNone)) (created_example long_message)) =
     sent (created_example long_message) @ [notification (created_example long_message)
        (initial_head example_config (sender_name long_message) (timestamp long_message)
          @ replicate 150 97 @ initial_tail)]
   \<and> sent (step (Resume (CycleTask 0) (Returns VNone)) (settled_example long_message)) =
     sent (settled_example long_message) @ [notification (settled_example long_message)
        (alert_head example_config (timestamp long_message) 1 @ replicate 100 97
          @ ascii ''...'' @ alert_tail)]"
  using preview_truncation[of long_message "replicate 151 97" 0 "created_example long_message"
      0 "settled_example long_message" VNone VNone]
  by (simp add: created_example_fields settled_example_fields long_message_def
      max_notifications_def)

text \<open>
  C9. A message without a text body (\<open>text\<close> is \<open>None\<close> or empty, as for a media-only
  message): the preview is the literal Media message. The initial notification embeds it
  as it is; an alert embeds its first 100 characters, which are the whole of it, followed
  by the three dots of the alert template.
\<close>

theorem media_preview:
  assumes "msg_text m = None \<or> msg_text m = Some []"
    and "i < length (tasks s)" and "new_message (tasks s ! i) = m"
    and "pc (tasks s ! i) = Created" and "\<not> notification_active s"
    and "j < length (tasks s')" and "new_message (tasks s' ! j) = m"
    and "pc (tasks s' ! j) = SettleSleep \<or> pc (tasks s' ! j) = IntervalSleep"
    and "notification_active s'" and "\<not> stop_requested s'"
    and "notification_count (tasks s' ! j) < max_notifications"
  shows "message_preview m = ascii ''Media message''
       \<and> sent (step (Resume (CycleTask i) (Returns v)) s) =
           sent s @ [notification s
             (initial_head (cfg s) (sender_name m) (timestamp m) @ ascii ''Media message''
              @ initial_tail)]
       \<and> sent (step (Resume (CycleTask j) (Returns v')) s') =
           sent s' @ [notification s'
             (alert_head (cfg s') (timestamp m) (notification_count (tasks s' ! j) + 1)
              @ ascii ''Media message'' @ ascii ''...'' @ alert_tail)]"
proof -
  have p: "message_preview m = ascii ''Media message''"
    using assms(1) by (auto simp add: message_preview_def)
  have a: "take 100 (ascii ''Media message'') = ascii ''Media message''"
    by (simp add: ascii_def)
  show ?thesis
    using loop_entry_sent[OF assms(2,4,5), of v] loop_head_sent[OF assms(6,8,9,10,11), of v']
      assms(3,7)
    by (simp add: p a initial_text_def alert_text_def)
qed

theorem media_preview_witness:
  "message_preview media_message = ascii ''Media message''
   \<and> sent (step (Resume (CycleTask 0) (Returns VNone)) (created_example media_message)) =
     sent (created_example media_message) @ [notification (created_example media_message)
        (initial_head example_config (sender_name media_message) (timestamp media_message)
          @ ascii ''Media message'' @ initial_tail)]
   \<and> sent (step (Resume (CycleTask 0) (Returns VNone)) (settled_example media_message)) =
     sent (settled_example media_message) @ [notification (settled_example media_message)
        (alert_head example_config (timestamp media_message) 1 @ ascii ''Media message''
          @ ascii ''...'' @ alert_tail)]"
  using media_preview[of media_message 0 "created_example media_message"
      0 "settled_example media_message" VNone VNone]
  by (simp add: created_example_fields settled_example_fields media_message_def
      max_notifications_def)

section \<open>Configuration errors\<close>

lemma py_int_0: "py_int (ascii ''0'') = Inr 0"
  by (simp add: py_int_def py_strip_def ascii_def is_space_def is_digit_def digits_value_def)

lemma py_int_30: "py_int (ascii ''30'') = Inr 30"
  by (simp add: py_int_def py_strip_def ascii_def is_space_def is_digit_def digits_value_def)

lemma parses_int:
  assumes "parses env k" "py_int d = Inr d'"
  obtains i where "py_int (getenv env k d) = Inr i"
    and "env k = None \<Longrightarrow> i = d'" and "\<And>v. env k = Some v \<Longrightarrow> py_int v = Inr i"
  using assms by (auto simp add: parses_def getenv_def split: option.splits sum.splits)

text \<open>The names that \<open>_validate_config\<close> collects are the missing settings, in the same order.\<close>

lemma missing_agree:
  assumes a: "py_int (getenv env ''API_ID'' (ascii ''0'')) = Inr aid"
    and u: "py_int (getenv env ''USER_ID'' (ascii ''0'')) = Inr uid"
  shows "missing_vars \<lparr> api_id = aid,
                    api_hash = getenv env ''API_HASH'' [],
                    phone_number = getenv env ''PHONE_NUMBER'' [],
                    bot_token = getenv env ''BOT_TOKEN'' [],
                    user_id = uid,
                    channel_username = getenv env ''CHANNEL_USERNAME'' [],
                    notification_interval = ni \<rparr> = missing_settings env"
proof -
  have 1: "(aid = 0) = int_setting_missing env ''API_ID''"
    using a by (auto simp add: int_setting_missing_def getenv_def py_int_0 split: option.splits)
  have 2: "(uid = 0) = int_setting_missing env ''USER_ID''"
    using u by (auto simp add: int_setting_missing_def getenv_def py_int_0 split: option.splits)
  have 3: "\<And>k. (getenv env k [] = []) = str_setting_missing env k"
    by (auto simp add: str_setting_missing_def getenv_def split: option.splits)
  show ?thesis
    by (simp add: missing_vars_def required_vars_def missing_settings_def 1 2 3)
qed

text \<open>
  C6, as the code has it. Provided that API\_ID, USER\_ID and NOTIFICATION\_INTERVAL, where
  set, hold integer literals: when one or more of the six required settings is missing,
  \<open>__init__\<close> raises \<open>ValueError\<close> whose message lists exactly the missing settings, and
  \<open>main\<close> ends with that exception before any task exists (so before any call of a
  transport); when none is missing, the monitor is built, and an unset
  NOTIFICATION\_INTERVAL gives the interval 30.
\<close>

theorem config_errors:
  assumes "parses env ''API_ID''" "parses env ''USER_ID''" "parses env ''NOTIFICATION_INTERVAL''"
  shows "(missing_settings env \<noteq> [] \<longrightarrow>
            snd (init env) = Inl (ValueError (missing_message (missing_settings env)))
          \<and> launch env file = Inl (ValueError (missing_message (missing_settings env))))
       \<and> (missing_settings env = [] \<longrightarrow>
            (\<exists>c. snd (init env) = Inr c \<and> launch env file = Inr (initial_sys c file (fst (init env)))
               \<and> (env ''NOTIFICATION_INTERVAL'' = None \<longrightarrow> notification_interval c = 30)))"
proof -
  obtain aid where a: "py_int (getenv env ''API_ID'' (ascii ''0'')) = Inr aid"
    using parses_int[OF assms(1) py_int_0] by blast
  obtain uid where u: "py_int (getenv env ''USER_ID'' (ascii ''0'')) = Inr uid"
    using parses_int[OF assms(2) py_int_0] by blast
  obtain ni where n: "py_int (getenv env ''NOTIFICATION_INTERVAL'' (ascii ''30'')) = Inr ni"
    and n30: "env ''NOTIFICATION_INTERVAL'' = None \<Longrightarrow> ni = 30"
    using parses_int[OF assms(3) py_int_30] by blast
  note m = missing_agree[OF a u, of ni]
  show ?thesis
    using n30 by (simp add: init_def launch_def a u n Let_def validate_config_def m)
qed

lemmas environ_defs = missing_settings_def int_setting_missing_def str_setting_missing_def
  parses_def py_int_def py_strip_def ascii_def is_space_def is_digit_def digits_value_def
  missing_message_def

theorem config_errors_witness:
  "snd (init incomplete_environ) =
     Inl (ValueError (ascii ''Missing required environment variables: API_ID, CHANNEL_USERNAME''))
   \<and> launch incomplete_environ True =
     Inl (ValueError (ascii ''Missing required environment variables: API_ID, CHANNEL_USERNAME''))
   \<and> (\<exists>c. snd (init complete_environ) = Inr c \<and> notification_interval c = 30)"
proof -
  have 1: "missing_settings incomplete_environ = [''API_ID'', ''CHANNEL_USERNAME'']"
    by (simp add: incomplete_environ_def environ_defs)
  have 2: "missing_settings complete_environ = []"
    by (simp add: complete_environ_def environ_defs)
  have 3: "parses incomplete_environ ''API_ID''" "parses incomplete_environ ''USER_ID''"
    "parses incomplete_environ ''NOTIFICATION_INTERVAL''"
    by (simp_all add: incomplete_environ_def environ_defs)
  have 4: "parses complete_environ ''API_ID''" "parses complete_environ ''USER_ID''"
    "parses complete_environ ''NOTIFICATION_INTERVAL''"
    by (simp_all add: complete_environ_def environ_defs)
  have 5: "complete_environ ''NOTIFICATION_INTERVAL'' = None"
    by (simp add: complete_environ_def)
  show ?thesis
    using config_errors[OF 3, of True] config_errors[OF 4, of True]
    by (auto simp add: 1 2 5 missing_message_def ascii_def)
qed

text \<open>
  The claim as the specification words it (every environment with a missing setting gets
  an error that names every missing setting) fails where a setting read with \<open>int()\<close> is
  not a number: API\_HASH is missing, yet the exception is the one of \<open>int()\<close> on USER\_ID.
\<close>

theorem config_errors_counterexample:
  "missing_settings bad_environ = [''API_HASH'']
   \<and> snd (init bad_environ) = Inl (invalid_literal (ascii ''abc''))
   \<and> snd (init bad_environ) \<noteq> Inl (ValueError (missing_message [''API_HASH'']))"
  by (simp add: bad_environ_def environ_defs init_def getenv_def invalid_literal_def)

section \<open>One resumption of a task\<close>

lemma log_line_fields:
  "tasks (log_line l m s) = tasks s" "sent (log_line l m s) = sent s"
  "notification_active (log_line l m s) = notification_active s"
  "stop_requested (log_line l m s) = stop_requested s"
  "cfg (log_line l m s) = cfg s" "main_pc (log_line l m s) = main_pc s"
  "handler_installed (log_line l m s) = handler_installed s"
  "acks (log_line l m s) = acks s" "polls (log_line l m s) = polls s"
  "logged (log_line l m s) = logged s @ [(l, m)]"
  by (simp_all add: log_line_def)

lemma set_task_fields:
  "tasks (set_task i c s) = (tasks s)[i := c]" "sent (set_task i c s) = sent s"
  "notification_active (set_task i c s) = notification_active s"
  "stop_requested (set_task i c s) = stop_requested s"
  "cfg (set_task i c s) = cfg s" "main_pc (set_task i c s) = main_pc s"
  "handler_installed (set_task i c s) = handler_installed s"
  "acks (set_task i c s) = acks s" "polls (set_task i c s) = polls s"
  "logged (set_task i c s) = logged s"
  by (simp_all add: set_task_def)

lemma loop_end_fields:
  "tasks (loop_end i s) = (tasks s)[i := (tasks s ! i)\<lparr>pc := Finished\<rparr>]"
  "sent (loop_end i s) = sent s"
  "\<not> notification_active (loop_end i s)"
  "stop_requested (loop_end i s) = stop_requested s"
  "cfg (loop_end i s) = cfg s" "main_pc (loop_end i s) = main_pc s"
  "handler_installed (loop_end i s) = handler_installed s"
  "acks (loop_end i s) = acks s" "polls (loop_end i s) = polls s"
  "logged (loop_end i s) = logged s @ [(INFO, ascii ''Notification loop ended'')]"
  by (simp_all add: loop_end_def set_task_def log_line_def)

lemmas update_fields = log_line_fields set_task_fields loop_end_fields

lemma resume_created:
  assumes "pc (tasks s ! i) = Created"
  shows "cycle_resume i (Returns v) s = loop_entry i s"
    and "cycle_resume i (Raises x) s = s"
  using assms by (auto simp add: cycle_resume_def Let_def)

lemma resume_initial_send:
  assumes "pc (tasks s ! i) = AwaitInitialSend"
  shows "cycle_resume i (Returns v) s = set_task i ((tasks s ! i)\<lparr>pc := SettleSleep\<rparr>) s"
    and "cycle_resume i (Raises (TelegramError e)) s =
      set_task i ((tasks s ! i)\<lparr>pc := SettleSleep\<rparr>)
        (log_line ERROR (ascii ''Error sending notification: '' @ e) s)"
    and "\<not> is_TelegramError x \<Longrightarrow> cycle_resume i (Raises x) s = crash i x s"
  using assms by (simp_all add: cycle_resume_def send_notification_resume_def Let_def)

lemma resume_alert_send:
  assumes "pc (tasks s ! i) = AwaitAlertSend"
  shows "cycle_resume i (Returns v) s =
      log_line INFO
        (ascii ''Sent alert notification #'' @ digits_of (notification_count (tasks s ! i)))
        (set_task i ((tasks s ! i)\<lparr>pc := IntervalSleep\<rparr>) s)"
    and "cycle_resume i (Raises (TelegramError e)) s =
      log_line INFO
        (ascii ''Sent alert notification #'' @ digits_of (notification_count (tasks s ! i)))
        (set_task i ((tasks s ! i)\<lparr>pc := IntervalSleep\<rparr>)
          (log_line ERROR (ascii ''Error sending notification: '' @ e) s))"
    and "\<not> is_TelegramError x \<Longrightarrow> cycle_resume i (Raises x) s = crash i x s"
  using assms by (simp_all add: cycle_resume_def send_notification_resume_def Let_def)

lemma resume_max_send:
  assumes "pc (tasks s ! i) = AwaitMaxSend"
  shows "cycle_resume i (Returns v) s = loop_end i s"
    and "cycle_resume i (Raises (TelegramError e)) s =
      loop_end i (log_line ERROR (ascii ''Error sending notification: '' @ e) s)"
    and "\<not> is_TelegramError x \<Longrightarrow> cycle_resume i (Raises x) s = crash i x s"
  using assms by (simp_all add: cycle_resume_def send_notification_resume_def Let_def)

lemma resume_sleep:
  assumes "pc (tasks s ! i) = SettleSleep \<or> pc (tasks s ! i) = IntervalSleep"
  shows "cycle_resume i (Returns v) s = loop_head i s"
    and "cycle_resume i (Raises x) s = s"
  using assms by (auto simp add: cycle_resume_def Let_def)

lemma resume_done:
  assumes "pc (tasks s ! i) = Finished \<or> pc (tasks s ! i) = Crashed x"
  shows "cycle_resume i r s = s"
  using assms by (auto simp add: cycle_resume_def Let_def)

lemma alerting_example_fields:
  "tasks (alerting_example m) = [\<lparr>pc = AwaitAlertSend, new_message = m, notification_count = 1\<rparr>]"
  "notification_active (alerting_example m)" "\<not> stop_requested (alerting_example m)"
  "cfg (alerting_example m) = example_config"
  by (simp_all add: alerting_example_def started_fields cycle_defs max_notifications_def)

section \<open>Failed sends\<close>

text \<open>
  C7. A send of a notification fails when \<open>bot.send_message\<close> raises \<open>TelegramError\<close>,
  the class of every error of a request of the bot library. For a task of the cycle that
  waits for the answer to any of its sends (the initial notification, an alert, the notice
  of the maximum): the failure adds one error line to the log, and the task then goes on
  exactly as after a send that succeeded. It does not end with the exception, no message
  is sent again, its counter and \<open>stop_requested\<close> keep their values, and
  \<open>notification_active\<close> changes only where the successful path changes it (the end of
  the cycle after the notice of the maximum).
\<close>

theorem send_failure_is_swallowed:
  assumes "i < length (tasks s)"
    and "pc (tasks s ! i) = AwaitInitialSend \<or> pc (tasks s ! i) = AwaitAlertSend
         \<or> pc (tasks s ! i) = AwaitMaxSend"
  shows "step (Resume (CycleTask i) (Raises (TelegramError e))) s =
           step (Resume (CycleTask i) (Returns v))
             (log_line ERROR (ascii ''Error sending notification: '' @ e) s)
       \<and> (\<forall>x. pc (tasks (step (Resume (CycleTask i) (Raises (TelegramError e))) s) ! i) \<noteq> Crashed x)
       \<and> pc (tasks (step (Resume (CycleTask i) (Raises (TelegramError e))) s) ! i) =
           (if pc (tasks s ! i) = AwaitInitialSend then SettleSleep
            else if pc (tasks s ! i) = AwaitAlertSend then IntervalSleep else Finished)
       \<and> sent (step (Resume (CycleTask i) (Raises (TelegramError e))) s) = sent s
       \<and> notification_count (tasks (step (Resume (CycleTask i) (Raises (TelegramError e))) s) ! i) =
           notification_count (tasks s ! i)
       \<and> stop_requested (step (Resume (CycleTask i) (Raises (TelegramError e))) s) = stop_requested s
       \<and> notification_active (step (Resume (CycleTask i) (Raises (TelegramError e))) s) =
           (notification_active s \<and> pc (tasks s ! i) \<noteq> AwaitMaxSend)
       \<and> (ERROR, ascii ''Error sending notification: '' @ e)
           \<in> set (logged (step (Resume (CycleTask i) (Raises (TelegramError e))) s))"
proof -
  let ?s' = "log_line ERROR (ascii ''Error sending notification: '' @ e) s"
  have t: "tasks ?s' = tasks s" by (simp only: log_line_fields)
  consider (a) "pc (tasks s ! i) = AwaitInitialSend" | (b) "pc (tasks s ! i) = AwaitAlertSend"
    | (c) "pc (tasks s ! i) = AwaitMaxSend" using assms(2) by blast
  then show ?thesis
  proof cases
    case a
    then have a': "pc (tasks ?s' ! i) = AwaitInitialSend" by (simp only: t)
    show ?thesis
      using assms(1) a
      by (simp add: resume_initial_send(2)[OF a] resume_initial_send(1)[OF a'] t update_fields)
  next
    case b
    then have b': "pc (tasks ?s' ! i) = AwaitAlertSend" by (simp only: t)
    show ?thesis
      using assms(1) b
      by (simp add: resume_alert_send(2)[OF b] resume_alert_send(1)[OF b'] t update_fields)
  next
    case c
    then have c': "pc (tasks ?s' ! i) = AwaitMaxSend" by (simp only: t)
    show ?thesis
      using assms(1) c
      by (simp add: resume_max_send(2)[OF c] resume_max_send(1)[OF c'] t update_fields)
  qed
qed

theorem send_failure_is_swallowed_witness:
  "pc (tasks (step (Resume (CycleTask 0) (Raises (TelegramError (ascii ''Timed out''))))
          (alerting_example media_message)) ! 0) = IntervalSleep
   \<and> sent (step (Resume (CycleTask 0) (Raises (TelegramError (ascii ''Timed out''))))
          (alerting_example media_message)) = sent (alerting_example media_message)
   \<and> notification_count (tasks (step (Resume (CycleTask 0) (Raises (TelegramError (ascii ''Timed out''))))
          (alerting_example media_message)) ! 0) = 1
   \<and> notification_active (step (Resume (CycleTask 0) (Raises (TelegramError (ascii ''Timed out''))))
          (alerting_example media_message))
   \<and> (ERROR, ascii ''Error sending notification: '' @ ascii ''Timed out'')
        \<in> set (logged (step (Resume (CycleTask 0) (Raises (TelegramError (ascii ''Timed out''))))
          (alerting_example media_message)))"
  using send_failure_is_swallowed[of 0 "alerting_example media_message" "ascii ''Timed out''" VNone]
  by (simp add: alerting_example_fields resume_alert_send update_fields)

section \<open>Startup without authorization\<close>


lemma setup_client_begin_fields:
  "main_pc (setup_client_begin s) = AwaitClientStart"
  "tasks (setup_client_begin s) = tasks s" "sent (setup_client_begin s) = sent s"
  "notification_active (setup_client_begin s) = notification_active s"
  "stop_requested (setup_client_begin s) = stop_requested s"
  "cfg (setup_client_begin s) = cfg s"
  "handler_installed (setup_client_begin s) = handler_installed s"
  "acks (setup_client_begin s) = acks s" "polls (setup_client_begin s) = polls s"
  by (simp_all add: setup_client_begin_def Let_def log_line_def)

lemma setup_failed_fields:
  "main_pc (setup_failed e s) = MainReturned"
  "tasks (setup_failed e s) = tasks s" "sent (setup_failed e s) = sent s"
  "notification_active (setup_failed e s) = notification_active s"
  "stop_requested (setup_failed e s) = stop_requested s"
  "cfg (setup_failed e s) = cfg s"
  "handler_installed (setup_failed e s) = handler_installed s"
  "acks (setup_failed e s) = acks s" "polls (setup_failed e s) = polls s"
  "logged (setup_failed e s) = logged s @ [(ERROR, ascii ''Failed to setup client: '' @ exn_str e),
     (ERROR, ascii ''Make sure you have run the initial authentication setup.'')]"
  by (simp_all add: setup_failed_def log_line_def)




section \<open>The poller\<close>

lemma stop_found_fields:
  "main_pc (stop_found u s) = AwaitConfirm (update_id u)"
  "tasks (stop_found u s) = tasks s" "sent (stop_found u s) = sent s @ [confirmation s]"
  "\<not> notification_active (stop_found u s)"
  "stop_requested (stop_found u s)"
  "cfg (stop_found u s) = cfg s"
  "handler_installed (stop_found u s) = handler_installed s"
  "acks (stop_found u s) = acks s" "polls (stop_found u s) = polls s"
  "logged (stop_found u s) = logged s"
  by (simp_all add: stop_found_def Let_def confirmation_def)

lemma poll_error_fields:
  "main_pc (poll_error e s) = PollSleep"
  "tasks (poll_error e s) = tasks s" "sent (poll_error e s) = sent s"
  "notification_active (poll_error e s) = notification_active s"
  "stop_requested (poll_error e s) = stop_requested s"
  "cfg (poll_error e s) = cfg s"
  "handler_installed (poll_error e s) = handler_installed s"
  "acks (poll_error e s) = acks s" "polls (poll_error e s) = polls s"
  "logged (poll_error e s) = logged s @ [(ERROR, ascii ''Error checking for stop command: '' @ exn_str e)]"
  by (simp_all add: poll_error_def log_line_def)

lemma poll_begin_fields:
  "main_pc (poll_begin s) = AwaitGetUpdates"
  "tasks (poll_begin s) = tasks s" "sent (poll_begin s) = sent s"
  "notification_active (poll_begin s) = notification_active s"
  "stop_requested (poll_begin s) = stop_requested s"
  "cfg (poll_begin s) = cfg s"
  "handler_installed (poll_begin s) = handler_installed s"
  "acks (poll_begin s) = acks s" "polls (poll_begin s) = polls s + 1"
  "logged (poll_begin s) = logged s"
  by (simp_all add: poll_begin_def)

lemma resume_get_updates:
  assumes "main_pc s = AwaitGetUpdates"
  shows "scan_updates (user_id (cfg s)) us = Inr (Some u) \<Longrightarrow>
           main_resume (Returns (VUpdates us)) s = stop_found u s"
    and "scan_updates (user_id (cfg s)) us = Inr None \<Longrightarrow>
           main_resume (Returns (VUpdates us)) s = s\<lparr>main_pc := PollSleep\<rparr>"
    and "scan_updates (user_id (cfg s)) us = Inl x \<Longrightarrow>
           main_resume (Returns (VUpdates us)) s = poll_error x s"
    and "main_resume (Raises e) s = poll_error e s"
    and "main_resume (Returns VNone) s = s" and "main_resume (Returns (VBool b)) s = s"
  using assms by (simp_all add: main_resume_def)

lemma resume_confirm:
  assumes "main_pc s = AwaitConfirm k"
  shows "main_resume (Returns v) s = s\<lparr>acks := acks s @ [k + 1], main_pc := AwaitAck\<rparr>"
    and "main_resume (Raises e) s = poll_error e s"
  using assms by (simp_all add: main_resume_def)

lemma resume_ack:
  assumes "main_pc s = AwaitAck"
  shows "main_resume (Returns v) s = (log_line INFO (ascii ''Stop command received'') s)\<lparr>main_pc := PollSleep\<rparr>"
    and "main_resume (Raises e) s = poll_error e s"
  using assms by (simp_all add: main_resume_def)

lemma resume_poll_sleep:
  assumes "main_pc s = PollSleep"
  shows "main_resume (Returns v) s = poll_begin s"
    and "main_resume (Raises e) s = s"
  using assms by (simp_all add: main_resume_def)

text \<open>A task that wakes while a flag says stop leaves the loop without another alert.\<close>

lemma loop_head_stopped:
  assumes "stop_requested s \<or> \<not> notification_active s"
    and "notification_count (tasks s ! i) < max_notifications"
  shows "loop_head i s = loop_end i s"
  using assms by (auto simp add: loop_head_def Let_def)

lemma sleeping_example_fields:
  "tasks (sleeping_example m) = [\<lparr>pc = IntervalSleep, new_message = m, notification_count = 1\<rparr>]"
  "notification_active (sleeping_example m)" "\<not> stop_requested (sleeping_example m)"
  "cfg (sleeping_example m) = example_config" "main_pc (sleeping_example m) = AwaitGetUpdates"
  "acks (sleeping_example m) = []"
  by (simp_all add: sleeping_example_def started_fields cycle_defs max_notifications_def)

lemma stop_text: "py_lower (py_strip (ascii '' /STOP '')) = ascii ''/stop''"
  by (simp add: py_lower_def py_strip_def ascii_def is_space_def lower_cp_def)

lemma matches_stop_update: "matches_stop 7 stop_update = Inr True"
  by (simp add: matches_stop_def stop_update_def stop_text) (simp add: ascii_def)

lemma scan_stop_update: "scan_updates 7 [stop_update] = Inr (Some stop_update)"
  by (simp add: matches_stop_update)

section \<open>The effect of an event on the tasks\<close>

lemma send_call_fields:
  "tasks (send_notification_call t s) = tasks s"
  "sent (send_notification_call t s) = sent s @ [notification s t]"
  "notification_active (send_notification_call t s) = notification_active s"
  "stop_requested (send_notification_call t s) = stop_requested s"
  "cfg (send_notification_call t s) = cfg s" "main_pc (send_notification_call t s) = main_pc s"
  "handler_installed (send_notification_call t s) = handler_installed s"
  "acks (send_notification_call t s) = acks s" "polls (send_notification_call t s) = polls s"
  "logged (send_notification_call t s) = logged s"
  by (simp_all add: send_notification_call_def notification_def)

lemma crash_fields:
  "tasks (crash i e s) = (tasks s)[i := (tasks s ! i)\<lparr>pc := Crashed e\<rparr>]"
  "sent (crash i e s) = sent s"
  "notification_active (crash i e s) = notification_active s"
  "stop_requested (crash i e s) = stop_requested s"
  "cfg (crash i e s) = cfg s" "main_pc (crash i e s) = main_pc s"
  "handler_installed (crash i e s) = handler_installed s"
  "acks (crash i e s) = acks s" "polls (crash i e s) = polls s"
  "logged (crash i e s) = logged s"
  by (simp_all add: crash_def set_task_def)

text \<open>The three outcomes of the first lines and of the test of the loop.\<close>

lemma loop_entry_cases:
  "notification_active s \<Longrightarrow> loop_entry i s = set_task i ((tasks s ! i)\<lparr>pc := Finished\<rparr>) s"
  "\<not> notification_active s \<Longrightarrow> loop_entry i s =
     send_notification_call
       (initial_text (cfg s) (sender_name (new_message (tasks s ! i)))
          (timestamp (new_message (tasks s ! i))) (message_preview (new_message (tasks s ! i))))
       (set_task i ((tasks s ! i)\<lparr>pc := AwaitInitialSend, notification_count := 0\<rparr>)
          (s\<lparr>notification_active := True, stop_requested := False\<rparr>))"
  by (simp_all add: loop_entry_def Let_def)

lemma loop_head_cases:
  "notification_active s \<Longrightarrow> \<not> stop_requested s \<Longrightarrow>
   notification_count (tasks s ! i) < max_notifications \<Longrightarrow>
   loop_head i s =
     send_notification_call
       (alert_text (cfg s) (timestamp (new_message (tasks s ! i)))
          (message_preview (new_message (tasks s ! i))) (notification_count (tasks s ! i) + 1))
       (set_task i ((tasks s ! i)\<lparr>pc := AwaitAlertSend,
          notification_count := notification_count (tasks s ! i) + 1\<rparr>) s)"
  "max_notifications \<le> notification_count (tasks s ! i) \<Longrightarrow>
   loop_head i s = send_notification_call max_text (set_task i ((tasks s ! i)\<lparr>pc := AwaitMaxSend\<rparr>) s)"
  "\<not> notification_active s \<or> stop_requested s \<Longrightarrow>
   notification_count (tasks s ! i) < max_notifications \<Longrightarrow> loop_head i s = loop_end i s"
  by (auto simp add: loop_head_def Let_def)

lemmas all_fields = log_line_fields set_task_fields loop_end_fields send_call_fields crash_fields

text \<open>What one resumption of task \<open>i\<close> does to the list of tasks: it replaces entry \<open>i\<close>.\<close>

lemma loop_entry_tasks: "\<exists>c'. tasks (loop_entry i s) = (tasks s)[i := c']"
  by (cases "notification_active s") (auto simp add: loop_entry_cases all_fields)

lemma loop_head_tasks: "\<exists>c'. tasks (loop_head i s) = (tasks s)[i := c']"
proof -
  consider (go) "notification_active s \<and> \<not> stop_requested s \<and> notification_count (tasks s ! i) < max_notifications"
    | (cap) "max_notifications \<le> notification_count (tasks s ! i)"
    | (stop) "(\<not> notification_active s \<or> stop_requested s) \<and> notification_count (tasks s ! i) < max_notifications"
    by fastforce
  then show ?thesis
  proof cases
    case go then show ?thesis by (auto simp add: loop_head_cases(1) all_fields)
  next
    case cap then show ?thesis by (auto simp add: loop_head_cases(2) all_fields)
  next
    case stop then show ?thesis by (auto simp add: loop_head_cases(3) all_fields)
  qed
qed

lemma cycle_resume_tasks: "\<exists>c'. tasks (cycle_resume i r s) = (tasks s)[i := c']"
proof -
  have same: "\<exists>c'. tasks s = (tasks s)[i := c']"
    by (rule exI[of _ "tasks s ! i"]) simp
  show ?thesis
  proof (cases "pc (tasks s ! i)")
    case Created
    then show ?thesis using loop_entry_tasks same by (cases r) (auto simp add: resume_created)
  next
    case AwaitInitialSend
    show ?thesis
    proof (cases r)
      case (Returns v) then show ?thesis by (auto simp add: resume_initial_send[OF AwaitInitialSend] all_fields)
    next
      case (Raises x) then show ?thesis
        by (cases x) (auto simp add: resume_initial_send[OF AwaitInitialSend] all_fields)
    qed
  next
    case SettleSleep
    then show ?thesis using loop_head_tasks same by (cases r) (auto simp add: resume_sleep)
  next
    case AwaitAlertSend
    show ?thesis
    proof (cases r)
      case (Returns v) then show ?thesis by (auto simp add: resume_alert_send[OF AwaitAlertSend] all_fields)
    next
      case (Raises x) then show ?thesis
        by (cases x) (auto simp add: resume_alert_send[OF AwaitAlertSend] all_fields)
    qed
  next
    case IntervalSleep
    then show ?thesis using loop_head_tasks same by (cases r) (auto simp add: resume_sleep)
  next
    case AwaitMaxSend
    show ?thesis
    proof (cases r)
      case (Returns v) then show ?thesis by (auto simp add: resume_max_send[OF AwaitMaxSend] all_fields)
    next
      case (Raises x) then show ?thesis
        by (cases x) (auto simp add: resume_max_send[OF AwaitMaxSend] all_fields)
    qed
  next
    case Finished
    then show ?thesis using same by (simp add: resume_done)
  next
    case (Crashed x)
    then show ?thesis using same by (simp add: resume_done[of s i x])
  qed
qed

lemma loop_head_task:
  assumes "i < length (tasks s)"
  shows "tasks (loop_head i s) ! i = after_sleep s (tasks s ! i)"
proof -
  consider (go) "notification_active s \<and> \<not> stop_requested s \<and> notification_count (tasks s ! i) < max_notifications"
    | (cap) "max_notifications \<le> notification_count (tasks s ! i)"
    | (stop) "(\<not> notification_active s \<or> stop_requested s) \<and> notification_count (tasks s ! i) < max_notifications"
    by fastforce
  then show ?thesis
  proof cases
    case go then show ?thesis using assms by (simp add: loop_head_cases(1) all_fields after_sleep_def)
  next
    case cap then show ?thesis using assms by (auto simp add: loop_head_cases(2) all_fields after_sleep_def)
  next
    case stop then show ?thesis using assms by (auto simp add: loop_head_cases(3) all_fields after_sleep_def)
  qed
qed

lemma loop_entry_task:
  assumes "i < length (tasks s)"
  shows "tasks (loop_entry i s) ! i =
    (if notification_active s then (tasks s ! i)\<lparr>pc := Finished\<rparr>
     else (tasks s ! i)\<lparr>pc := AwaitInitialSend, notification_count := 0\<rparr>)"
  using assms by (cases "notification_active s") (simp_all add: loop_entry_cases all_fields)

lemma after_send_task:
  assumes "i < length (tasks s)"
  shows "pc (tasks s ! i) = AwaitInitialSend \<Longrightarrow>
           tasks (cycle_resume i r s) ! i = after_send r SettleSleep (tasks s ! i)"
    and "pc (tasks s ! i) = AwaitAlertSend \<Longrightarrow>
           tasks (cycle_resume i r s) ! i = after_send r IntervalSleep (tasks s ! i)"
    and "pc (tasks s ! i) = AwaitMaxSend \<Longrightarrow>
           tasks (cycle_resume i r s) ! i = after_send r Finished (tasks s ! i)"
proof -
  show "tasks (cycle_resume i r s) ! i = after_send r SettleSleep (tasks s ! i)"
    if p: "pc (tasks s ! i) = AwaitInitialSend"
  proof (cases r)
    case (Returns v) then show ?thesis using assms by (simp add: resume_initial_send[OF p] all_fields after_send_def)
  next
    case (Raises x) then show ?thesis using assms
      by (cases x) (simp_all add: resume_initial_send[OF p] all_fields after_send_def)
  qed
  show "tasks (cycle_resume i r s) ! i = after_send r IntervalSleep (tasks s ! i)"
    if p: "pc (tasks s ! i) = AwaitAlertSend"
  proof (cases r)
    case (Returns v) then show ?thesis using assms by (simp add: resume_alert_send[OF p] all_fields after_send_def)
  next
    case (Raises x) then show ?thesis using assms
      by (cases x) (simp_all add: resume_alert_send[OF p] all_fields after_send_def)
  qed
  show "tasks (cycle_resume i r s) ! i = after_send r Finished (tasks s ! i)"
    if p: "pc (tasks s ! i) = AwaitMaxSend"
  proof (cases r)
    case (Returns v) then show ?thesis using assms by (simp add: resume_max_send[OF p] all_fields after_send_def)
  next
    case (Raises x) then show ?thesis using assms
      by (cases x) (simp_all add: resume_max_send[OF p] all_fields after_send_def)
  qed
qed

lemma cycle_resume_task:
  assumes "i < length (tasks s)"
  shows "tasks (cycle_resume i r s) ! i = cycle_next s r (tasks s ! i)"
proof (cases "pc (tasks s ! i)")
  case Created
  then show ?thesis using loop_entry_task[OF assms]
    by (cases r) (simp_all add: resume_created cycle_next_def)
next
  case AwaitInitialSend
  then show ?thesis using after_send_task(1)[OF assms] by (simp add: cycle_next_def)
next
  case SettleSleep
  then show ?thesis using loop_head_task[OF assms]
    by (cases r) (simp_all add: resume_sleep cycle_next_def)
next
  case AwaitAlertSend
  then show ?thesis using after_send_task(2)[OF assms] by (simp add: cycle_next_def)
next
  case IntervalSleep
  then show ?thesis using loop_head_task[OF assms]
    by (cases r) (simp_all add: resume_sleep cycle_next_def)
next
  case AwaitMaxSend
  then show ?thesis using after_send_task(3)[OF assms] by (simp add: cycle_next_def)
next
  case Finished
  then show ?thesis by (simp add: resume_done cycle_next_def)
next
  case (Crashed x)
  then show ?thesis by (simp add: resume_done[of s i x] cycle_next_def)
qed

lemma cycle_next_fuel:
  "cycle_next s r c = c \<or> cycle_fuel (cycle_next s r c) < cycle_fuel c"
  by (cases "pc c"; cases r)
     (auto simp add: cycle_next_def after_send_def after_sleep_def cycle_fuel_def)

lemma cycle_next_bound:
  "notification_count c \<le> max_notifications \<Longrightarrow>
   notification_count (cycle_next s r c) \<le> max_notifications"
  by (cases "pc c"; cases r)
     (auto simp add: cycle_next_def after_send_def after_sleep_def)

lemma cycle_fuel_le: "cycle_fuel c \<le> 2 * max_notifications + 4"
  by (cases "pc c") (auto simp add: cycle_fuel_def)

lemma main_failed_fields:
  "main_pc (main_failed e s) = MainFailed e"
  "tasks (main_failed e s) = tasks s" "sent (main_failed e s) = sent s"
  "\<not> notification_active (main_failed e s)"
  "stop_requested (main_failed e s)"
  "cfg (main_failed e s) = cfg s"
  "\<not> handler_installed (main_failed e s)"
  "acks (main_failed e s) = acks s" "polls (main_failed e s) = polls s"
  by (simp_all add: main_failed_def log_line_def)

lemma setup_client_finish_fields:
  "tasks (snd (setup_client_finish b s)) = tasks s" "sent (snd (setup_client_finish b s)) = sent s"
  "cfg (snd (setup_client_finish b s)) = cfg s"
  "main_pc (snd (setup_client_finish b s)) = main_pc s"
  by (simp_all add: setup_client_finish_def log_line_def)

lemma send_resume_fields:
  "tasks (snd (send_notification_resume r s)) = tasks s"
  "sent (snd (send_notification_resume r s)) = sent s"
  "cfg (snd (send_notification_resume r s)) = cfg s"
  "main_pc (snd (send_notification_resume r s)) = main_pc s"
  "notification_active (snd (send_notification_resume r s)) = notification_active s"
  "stop_requested (snd (send_notification_resume r s)) = stop_requested s"
  "handler_installed (snd (send_notification_resume r s)) = handler_installed s"
  by (simp_all add: send_notification_resume_def log_line_def split: reply.splits)

lemma setup_client_finish_tasks: "setup_client_finish b s = (x, s') \<Longrightarrow> tasks s' = tasks s"
  using setup_client_finish_fields(1)[of b s] by simp

lemma send_resume_tasks: "send_notification_resume r s = (x, s') \<Longrightarrow> tasks s' = tasks s"
  using send_resume_fields(1)[of r s] by simp

lemmas main_fields = all_fields stop_found_fields poll_error_fields poll_begin_fields
  setup_client_begin_fields setup_failed_fields main_failed_fields

lemma main_resume_tasks: "tasks (main_resume r s) = tasks s"
proof (cases "main_pc s")
  case NotStarted
  then show ?thesis by (cases r) (simp_all add: main_resume_def main_fields)
next
  case AwaitClientStart
  then show ?thesis by (cases r) (simp_all add: main_resume_def main_fields)
next
  case AwaitIsAuthorized
  then show ?thesis
    by (cases r)
       (auto simp add: main_resume_def main_fields dest: setup_client_finish_tasks
          split: retval.splits prod.splits option.splits)
next
  case AwaitStartupSend
  then show ?thesis
    by (auto simp add: main_resume_def main_fields dest: send_resume_tasks
          split: prod.splits option.splits)
next
  case AwaitGetUpdates
  then show ?thesis
    by (cases r)
       (auto simp add: main_resume_def main_fields split: retval.splits sum.splits option.splits)
next
  case (AwaitConfirm k)
  then show ?thesis by (cases r) (simp_all add: main_resume_def main_fields)
next
  case AwaitAck
  then show ?thesis by (cases r) (simp_all add: main_resume_def main_fields)
next
  case PollSleep
  then show ?thesis by (cases r) (simp_all add: main_resume_def main_fields)
next
  case MainReturned
  then show ?thesis by (simp add: main_resume_def)
next
  case (MainFailed x)
  then show ?thesis by (simp add: main_resume_def)
qed

lemma handler_tasks:
  "tasks (handler m s) = tasks s @ [\<lparr>pc = Created, new_message = m, notification_count = 0\<rparr>]"
  by (simp add: handler_def log_line_def)

lemma step_length: "length (tasks s) \<le> length (tasks (step e s))"
proof (cases e)
  case (NewMessage m)
  then show ?thesis by (simp add: handler_tasks)
next
  case (Resume t r)
  show ?thesis
  proof (cases t)
    case MainTask
    then show ?thesis using Resume by (simp add: main_resume_tasks)
  next
    case (CycleTask j)
    obtain c' where "tasks (cycle_resume j r s) = (tasks s)[j := c']"
      using cycle_resume_tasks by blast
    then show ?thesis using Resume CycleTask by simp
  qed
qed

text \<open>An event moves the task \<open>i\<close> only if it resumes it, and then by \<open>cycle_next\<close>.\<close>

lemma step_task:
  assumes "i < length (tasks s)"
  shows "tasks (step e s) ! i =
    (case e of
       NewMessage m \<Rightarrow> tasks s ! i
     | Resume t r \<Rightarrow>
         (case t of MainTask \<Rightarrow> tasks s ! i
          | CycleTask j \<Rightarrow> if j = i then cycle_next s r (tasks s ! i) else tasks s ! i))"
proof (cases e)
  case (NewMessage m)
  then show ?thesis using assms by (simp add: handler_tasks nth_append)
next
  case (Resume t r)
  show ?thesis
  proof (cases t)
    case MainTask
    then show ?thesis using Resume by (simp add: main_resume_tasks)
  next
    case (CycleTask j)
    obtain c' where c': "tasks (cycle_resume j r s) = (tasks s)[j := c']"
      using cycle_resume_tasks by blast
    show ?thesis
    proof (cases "j = i")
      case True
      then show ?thesis using Resume CycleTask assms by (simp add: cycle_resume_task)
    next
      case False
      then show ?thesis using Resume CycleTask c' by simp
    qed
  qed
qed

lemma step_fuel:
  assumes "i < length (tasks s)"
  shows "tasks (step e s) ! i = tasks s ! i
       \<or> cycle_fuel (tasks (step e s) ! i) < cycle_fuel (tasks s ! i)"
  using cycle_next_fuel[of s _ "tasks s ! i"]
  by (auto simp add: step_task[OF assms] split: event.splits task_id.splits)

lemma cycle_steps_fuel:
  "cycle_steps i evs s \<le>
     (if i < length (tasks s) then cycle_fuel (tasks s ! i) else 2 * max_notifications + 4)"
proof (induction evs arbitrary: s)
  case Nil
  show ?case by simp
next
  case (Cons e evs)
  note ih = Cons.IH[of "step e s"]
  show ?case
  proof (cases "i < length (tasks s)")
    case True
    then have l: "i < length (tasks (step e s))" using step_length[of s e] by simp
    from step_fuel[OF True, of e] show ?thesis using ih l True by auto
  next
    case False
    then show ?thesis using ih cycle_fuel_le[of "tasks (step e s) ! i"]
      by (auto split: if_splits)
  qed
qed

lemma step_bound:
  assumes "list_all (\<lambda>c. notification_count c \<le> max_notifications) (tasks s)"
  shows "list_all (\<lambda>c. notification_count c \<le> max_notifications) (tasks (step e s))"
proof -
  have "notification_count (tasks (step e s) ! i) \<le> max_notifications"
    if i: "i < length (tasks (step e s))" for i
  proof (cases "i < length (tasks s)")
    case True
    then have b: "notification_count (tasks s ! i) \<le> max_notifications"
      using assms by (simp add: list_all_length)
    show ?thesis using cycle_next_bound[OF b, of s] b
      by (auto simp add: step_task[OF True] split: event.splits task_id.splits)
  next
    case False
    have "tasks (step e s) ! i = \<lparr>pc = Created, new_message = m, notification_count = 0\<rparr>"
      if "e = NewMessage m" for m
      using that i False by (auto simp add: handler_tasks nth_append split: if_splits)
    moreover have "length (tasks (step e s)) = length (tasks s)" if "e = Resume t r" for t r
    proof (cases t)
      case MainTask
      then show ?thesis using that by (simp add: main_resume_tasks)
    next
      case (CycleTask j)
      obtain c' where "tasks (cycle_resume j r s) = (tasks s)[j := c']"
        using cycle_resume_tasks by blast
      then show ?thesis using that CycleTask by simp
    qed
    ultimately show ?thesis using i False by (cases e) auto
  qed
  then show ?thesis by (simp add: list_all_length)
qed

lemma run_bound:
  "list_all (\<lambda>c. notification_count c \<le> max_notifications) (tasks s) \<Longrightarrow>
   list_all (\<lambda>c. notification_count c \<le> max_notifications) (tasks (run evs s))"
  by (induction evs arbitrary: s) (simp_all add: step_bound)

lemma cycle_next_count:
  "notification_count (cycle_next s r c) = notification_count c
   \<or> (pc (cycle_next s r c) = AwaitAlertSend
       \<and> notification_count (cycle_next s r c) = notification_count c + 1
       \<and> (pc c = SettleSleep \<or> pc c = IntervalSleep))
   \<or> (pc c = Created \<and> notification_count (cycle_next s r c) = 0)"
  by (cases "pc c"; cases r)
     (auto simp add: cycle_next_def after_send_def after_sleep_def)

lemma cycle_next_exit:
  assumes "pc c = SettleSleep \<or> pc c = IntervalSleep"
    and "notification_count c \<le> max_notifications"
  shows "(pc (cycle_next s (Returns v) c) = AwaitAlertSend \<and> notification_active s
           \<and> \<not> stop_requested s \<and> notification_count c < max_notifications)
       \<or> ((pc (cycle_next s (Returns v) c) = Finished \<or> pc (cycle_next s (Returns v) c) = AwaitMaxSend)
           \<and> notification_count (cycle_next s (Returns v) c) = notification_count c
           \<and> (stop_requested s \<or> \<not> notification_active s
                \<or> notification_count c = max_notifications))"
  using assms by (auto simp add: cycle_next_def after_sleep_def split: if_splits)

lemma cycle_next_progress:
  assumes "pc c \<noteq> Finished" "\<forall>x. pc c \<noteq> Crashed x"
  shows "cycle_next s (Returns v) c \<noteq> c"
proof -
  have "pc (cycle_next s (Returns v) c) \<noteq> pc c"
    using assms by (cases "pc c") (auto simp add: cycle_next_def after_send_def after_sleep_def)
  then show ?thesis by auto
qed


section \<open>The alert counter and the end of the loop\<close>

text \<open>
  C4. In every state in which the counters of all tasks are at most 25 (the initial state
  has no task), and for every task \<open>i\<close> of it:
  the bound holds again after every run; along every run, whatever the events and the
  replies, a task moves at most 54 times, so its loop ends; the first lines of a task set
  its counter to 0; an event changes the counter only by adding exactly 1 when the loop
  goes on to send one more alert (or by the reset of the first lines); a task that wakes
  from a sleep either sends one more alert, which needs both flags to allow it and the
  counter below 25, or leaves the loop with its counter unchanged because a flag was
  changed or the counter has reached 25; and a task that is not finished always moves
  when it is resumed.
\<close>

theorem alert_counter_and_termination:
  assumes "list_all (\<lambda>c. notification_count c \<le> max_notifications) (tasks s)"
    and "i < length (tasks s)"
  shows "max_notifications = 25
   \<and> list_all (\<lambda>c. notification_count c \<le> max_notifications) (tasks (run evs s))
   \<and> cycle_steps j evs s \<le> 2 * max_notifications + 4
   \<and> (pc (tasks s ! i) = Created \<and> \<not> notification_active s \<longrightarrow>
        notification_count (tasks (step (Resume (CycleTask i) (Returns v)) s) ! i) = 0
        \<and> pc (tasks (step (Resume (CycleTask i) (Returns v)) s) ! i) = AwaitInitialSend)
   \<and> (notification_count (tasks (step e s) ! i) = notification_count (tasks s ! i)
       \<or> (pc (tasks (step e s) ! i) = AwaitAlertSend
           \<and> notification_count (tasks (step e s) ! i) = notification_count (tasks s ! i) + 1
           \<and> (pc (tasks s ! i) = SettleSleep \<or> pc (tasks s ! i) = IntervalSleep))
       \<or> (pc (tasks s ! i) = Created \<and> notification_count (tasks (step e s) ! i) = 0))
   \<and> (pc (tasks s ! i) = SettleSleep \<or> pc (tasks s ! i) = IntervalSleep \<longrightarrow>
        (let c' = tasks (step (Resume (CycleTask i) (Returns v)) s) ! i in
           (pc c' = AwaitAlertSend \<and> notification_active s \<and> \<not> stop_requested s
              \<and> notification_count (tasks s ! i) < max_notifications)
         \<or> ((pc c' = Finished \<or> pc c' = AwaitMaxSend)
              \<and> notification_count c' = notification_count (tasks s ! i)
              \<and> (stop_requested s \<or> \<not> notification_active s
                   \<or> notification_count (tasks s ! i) = max_notifications))))
   \<and> (pc (tasks s ! i) \<noteq> Finished \<and> (\<forall>x. pc (tasks s ! i) \<noteq> Crashed x) \<longrightarrow>
        tasks (step (Resume (CycleTask i) (Returns v)) s) ! i \<noteq> tasks s ! i)"
proof -
  let ?c = "tasks s ! i"
  have b: "notification_count ?c \<le> max_notifications"
    using assms by (simp add: list_all_length)
  have own: "tasks (step (Resume (CycleTask i) r) s) ! i = cycle_next s r ?c" for r
    using assms(2) by (simp add: cycle_resume_task)
  have 1: "max_notifications = 25" by (simp add: max_notifications_def)
  have 2: "list_all (\<lambda>c. notification_count c \<le> max_notifications) (tasks (run evs s))"
    using assms(1) by (rule run_bound)
  have 3: "cycle_steps j evs s \<le> 2 * max_notifications + 4"
    using cycle_steps_fuel[of j evs s] cycle_fuel_le[of "tasks s ! j"] by (auto split: if_splits)
  have 4: "notification_count (cycle_next s (Returns v) ?c) = 0
        \<and> pc (cycle_next s (Returns v) ?c) = AwaitInitialSend"
    if "pc ?c = Created" "\<not> notification_active s"
    using that by (simp add: cycle_next_def)
  have 5: "notification_count (tasks (step e s) ! i) = notification_count ?c
       \<or> (pc (tasks (step e s) ! i) = AwaitAlertSend
           \<and> notification_count (tasks (step e s) ! i) = notification_count ?c + 1
           \<and> (pc ?c = SettleSleep \<or> pc ?c = IntervalSleep))
       \<or> (pc ?c = Created \<and> notification_count (tasks (step e s) ! i) = 0)"
    using cycle_next_count[of s _ ?c]
    by (auto simp add: step_task[OF assms(2)] split: event.splits task_id.splits)
  note 6 = cycle_next_exit[OF _ b, of s v]
  note 7 = cycle_next_progress[of ?c s v]
  show ?thesis
    unfolding own Let_def using 1 2 3 4 5 6 7 by blast
qed

theorem alert_counter_and_termination_witness:
  "list_all (\<lambda>c. notification_count c \<le> max_notifications)
     (tasks (run [Resume (CycleTask 0) (Returns VNone), Resume (CycleTask 0) (Returns VNone)]
        (sleeping_example media_message)))
   \<and> cycle_steps 0 [Resume (CycleTask 0) (Returns VNone), Resume (CycleTask 0) (Returns VNone)]
        (sleeping_example media_message) \<le> 54
   \<and> notification_count
        (tasks (step (Resume (CycleTask 0) (Returns VNone)) (created_example media_message)) ! 0) = 0
   \<and> pc (tasks (step (Resume (CycleTask 0) (Returns VNone)) (sleeping_example media_message)) ! 0)
        = AwaitAlertSend
   \<and> notification_count
        (tasks (step (Resume (CycleTask 0) (Returns VNone)) (sleeping_example media_message)) ! 0) = 2
   \<and> tasks (step (Resume (CycleTask 0) (Returns VNone)) (sleeping_example media_message)) ! 0
        \<noteq> tasks (sleeping_example media_message) ! 0"
proof -
  let ?w = "Resume (CycleTask 0) (Returns VNone)"
  have s: "list_all (\<lambda>c. notification_count c \<le> max_notifications) (tasks (sleeping_example media_message))"
    "0 < length (tasks (sleeping_example media_message))"
    by (simp_all add: sleeping_example_fields max_notifications_def)
  have c: "list_all (\<lambda>c. notification_count c \<le> max_notifications) (tasks (created_example media_message))"
    "0 < length (tasks (created_example media_message))"
    by (simp_all add: created_example_fields max_notifications_def)
  note A = alert_counter_and_termination[OF s, of "[?w, ?w]" 0 VNone ?w]
  note B = alert_counter_and_termination[OF c, of "[]" 0 VNone ?w]
  have 1: "list_all (\<lambda>c. notification_count c \<le> max_notifications) (tasks (run [?w, ?w] (sleeping_example media_message)))"
    using A by blast
  have 2: "cycle_steps 0 [?w, ?w] (sleeping_example media_message) \<le> 54"
    using A by (simp add: max_notifications_def)
  have 3: "notification_count (tasks (step ?w (created_example media_message)) ! 0) = 0"
    using B by (simp add: created_example_fields)
  have e: "tasks (step ?w (sleeping_example media_message)) ! 0 =
      \<lparr>pc = AwaitAlertSend, new_message = media_message, notification_count = 2\<rparr>"
    by (simp add: cycle_resume_task cycle_next_def after_sleep_def sleeping_example_fields
        max_notifications_def)
  have 4: "pc (tasks (step ?w (sleeping_example media_message)) ! 0) = AwaitAlertSend"
    by (simp only: e cycle.simps)
  have 5: "notification_count (tasks (step ?w (sleeping_example media_message)) ! 0) = 2"
    by (simp only: e cycle.simps)
  have 6: "tasks (step ?w (sleeping_example media_message)) ! 0 \<noteq> tasks (sleeping_example media_message) ! 0"
    unfolding e by (simp add: sleeping_example_fields)
  show ?thesis using 1 2 3 4 5 6 by blast
qed

section \<open>A cycle that nobody stops\<close>

lemma cycle_texts_Suc:
  "cycle_texts c m (Suc n) =
     cycle_texts c m n @ [alert_text c (timestamp m) (message_preview m) (Suc n)]"
  by (simp add: cycle_texts_def)

lemma notification_cfg: "cfg s = cfg s' \<Longrightarrow> notification s t = notification s' t"
  by (simp add: notification_def)

text \<open>A poll that finds no stop command changes nothing but the poller itself and the log.\<close>

lemma quiet_main:
  assumes "polling s" "quiet (user_id (cfg s)) (Resume MainTask r)"
  shows "polling (main_resume r s) \<and> cfg (main_resume r s) = cfg s
       \<and> tasks (main_resume r s) = tasks s \<and> sent (main_resume r s) = sent s
       \<and> notification_active (main_resume r s) = notification_active s
       \<and> stop_requested (main_resume r s) = stop_requested s
       \<and> handler_installed (main_resume r s) = handler_installed s"
proof (cases "main_pc s")
  case AwaitGetUpdates
  show ?thesis
  proof (cases r)
    case (Returns v)
    show ?thesis
    proof (cases v)
      case (VUpdates us)
      then show ?thesis using assms Returns AwaitGetUpdates
        by (cases "scan_updates (user_id (cfg s)) us")
           (auto simp add: resume_get_updates polling_def main_fields split: option.splits)
    qed (use Returns AwaitGetUpdates in \<open>simp_all add: resume_get_updates polling_def\<close>)
  next
    case (Raises e)
    then show ?thesis using AwaitGetUpdates
      by (simp add: resume_get_updates polling_def main_fields)
  qed
next
  case (AwaitConfirm k)
  then show ?thesis by (cases r) (simp_all add: resume_confirm polling_def main_fields)
next
  case AwaitAck
  then show ?thesis by (cases r) (simp_all add: resume_ack polling_def main_fields)
next
  case PollSleep
  then show ?thesis by (cases r) (simp_all add: resume_poll_sleep polling_def main_fields)
qed (use assms(1) in \<open>simp_all add: polling_def\<close>)

lemma polling_fields:
  "polling (log_line l t s) = polling s" "polling (set_task i c s) = polling s"
  "polling (loop_end i s) = polling s" "polling (send_notification_call t s) = polling s"
  "polling (crash i e s) = polling s"
  "polling (s\<lparr>notification_active := a, stop_requested := b\<rparr>) = polling s"
  by (simp_all add: polling_def all_fields)

lemma quiet_cycle:
  assumes inv: "quiet_inv s0 m s"
  shows "quiet_inv s0 m (cycle_resume 0 r s)"
proof -
  from inv have l: "length (tasks s) = 1" and c: "cfg s = cfg s0"
    by (simp_all add: quiet_inv_def)
  note n = notification_cfg[OF c]
  show ?thesis
  proof (cases "pc (tasks s ! 0)")
    case Created
    then have a: "\<not> notification_active s" using inv by (simp add: quiet_inv_def Let_def)
    show ?thesis
    proof (cases r)
      case (Returns v)
      then show ?thesis using inv Created a l
        by (simp add: quiet_inv_def Let_def resume_created loop_entry_cases(2) all_fields
            polling_fields cycle_texts_def notification_def)
    next
      case (Raises x)
      then show ?thesis using inv Created by (simp add: resume_created)
    qed
  next
    case AwaitInitialSend
    show ?thesis
    proof (cases r)
      case (Returns v)
      then show ?thesis using inv AwaitInitialSend l
        by (simp add: quiet_inv_def Let_def resume_initial_send all_fields polling_fields)
    next
      case (Raises x)
      then show ?thesis using inv AwaitInitialSend l
        by (cases x)
           (simp_all add: quiet_inv_def Let_def resume_initial_send all_fields polling_fields)
    qed
  next
    case SettleSleep
    then have live: "notification_active s" "\<not> stop_requested s"
      and z: "notification_count (tasks s ! 0) = 0"
      using inv by (simp_all add: quiet_inv_def Let_def)
    have lt: "notification_count (tasks s ! 0) < max_notifications"
      using z by (simp add: max_notifications_def)
    show ?thesis
    proof (cases r)
      case (Returns v)
      then show ?thesis using inv SettleSleep l z lt
        by (simp add: quiet_inv_def Let_def resume_sleep loop_head_cases(1)[OF live lt] all_fields
            polling_fields cycle_texts_def notification_def)
    next
      case (Raises x)
      then show ?thesis using inv SettleSleep by (simp add: resume_sleep)
    qed
  next
    case AwaitAlertSend
    show ?thesis
    proof (cases r)
      case (Returns v)
      then show ?thesis using inv AwaitAlertSend l
        by (simp add: quiet_inv_def Let_def resume_alert_send all_fields polling_fields)
    next
      case (Raises x)
      then show ?thesis using inv AwaitAlertSend l
        by (cases x)
           (simp_all add: quiet_inv_def Let_def resume_alert_send all_fields polling_fields)
    qed
  next
    case IntervalSleep
    then have live: "notification_active s" "\<not> stop_requested s"
      and le: "notification_count (tasks s ! 0) \<le> max_notifications"
      using inv by (simp_all add: quiet_inv_def Let_def)
    show ?thesis
    proof (cases r)
      case (Returns v)
      show ?thesis
      proof (cases "notification_count (tasks s ! 0) < max_notifications")
        case True
        then show ?thesis using inv IntervalSleep l Returns
          by (simp add: quiet_inv_def Let_def resume_sleep loop_head_cases(1)[OF live True]
              all_fields polling_fields cycle_texts_Suc notification_def)
      next
        case False
        then have eq: "notification_count (tasks s ! 0) = max_notifications" using le by simp
        have ge: "max_notifications \<le> notification_count (tasks s ! 0)" using eq by simp
        show ?thesis using inv IntervalSleep l Returns eq
          by (simp add: quiet_inv_def Let_def resume_sleep loop_head_cases(2)[OF ge]
              all_fields polling_fields notification_def)
      qed
    next
      case (Raises x)
      then show ?thesis using inv IntervalSleep by (simp add: resume_sleep)
    qed
  next
    case AwaitMaxSend
    show ?thesis
    proof (cases r)
      case (Returns v)
      then show ?thesis using inv AwaitMaxSend l
        by (simp add: quiet_inv_def Let_def resume_max_send all_fields polling_fields)
    next
      case (Raises x)
      then show ?thesis using inv AwaitMaxSend l
        by (cases x)
           (simp_all add: quiet_inv_def Let_def resume_max_send all_fields polling_fields)
    qed
  next
    case Finished
    then show ?thesis using inv by (simp add: resume_done)
  next
    case (Crashed x)
    then show ?thesis using inv by (simp add: resume_done[of s 0 x])
  qed
qed

lemma quiet_step:
  assumes "quiet_inv s0 m s" "quiet (user_id (cfg s0)) e"
  shows "quiet_inv s0 m (step e s)"
proof (cases e)
  case (NewMessage x)
  then show ?thesis using assms(2) by simp
next
  case (Resume t r)
  show ?thesis
  proof (cases t)
    case MainTask
    have p: "polling s" and c: "cfg s = cfg s0" using assms(1) by (simp_all add: quiet_inv_def)
    have q: "quiet (user_id (cfg s)) (Resume MainTask r)" using assms(2) Resume MainTask c by simp
    from quiet_main[OF p q] show ?thesis using assms(1) Resume MainTask
      by (simp add: quiet_inv_def Let_def cong: cycle_pc.case_cong)
  next
    case (CycleTask j)
    have l: "length (tasks s) = 1" using assms(1) by (simp add: quiet_inv_def)
    show ?thesis
    proof (cases "j = 0")
      case True
      then show ?thesis using quiet_cycle[OF assms(1), of r] Resume CycleTask l by simp
    next
      case False
      then show ?thesis using assms(1) Resume CycleTask l by simp
    qed
  qed
qed

lemma quiet_run:
  "quiet_inv s0 m s \<Longrightarrow> list_all (quiet (user_id (cfg s0))) evs \<Longrightarrow> quiet_inv s0 m (run evs s)"
  by (induction evs arbitrary: s) (simp_all add: quiet_step)

lemma quiet_start:
  assumes "handler_installed s" "polling s" "tasks s = []" "\<not> notification_active s"
  shows "quiet_inv s m (step (NewMessage m) s)"
  using assms by (simp add: quiet_inv_def handler_def log_line_def polling_def)

lemma other_update_quiet: "matches_stop 7 other_update = Inr False"
  by (simp add: matches_stop_def other_update_def)



lemma user_id_example: "user_id example_config = 7"
  by (simp add: example_config_def)



section \<open>A stop command whose confirmation or acknowledgement fails\<close>

lemma main_resume_flags:
  assumes "stop_requested s" "\<not> notification_active s"
  shows "stop_requested (main_resume r s) \<and> \<not> notification_active (main_resume r s)"
proof (cases "main_pc s")
  case NotStarted
  then show ?thesis using assms by (cases r) (simp_all add: main_resume_def main_fields)
next
  case AwaitClientStart
  then show ?thesis using assms by (cases r) (simp_all add: main_resume_def main_fields)
next
  case AwaitIsAuthorized
  then show ?thesis using assms
    by (cases r)
       (auto simp add: main_resume_def main_fields setup_client_finish_def log_line_def
          split: retval.splits)
next
  case AwaitStartupSend
  then show ?thesis using assms
    by (cases r)
       (auto simp add: main_resume_def main_fields send_notification_resume_def)
next
  case AwaitGetUpdates
  then show ?thesis using assms
    by (cases r)
       (auto simp add: main_resume_def main_fields split: retval.splits sum.splits option.splits)
next
  case (AwaitConfirm k)
  then show ?thesis using assms by (cases r) (simp_all add: main_resume_def main_fields)
next
  case AwaitAck
  then show ?thesis using assms by (cases r) (simp_all add: main_resume_def main_fields)
next
  case PollSleep
  then show ?thesis using assms by (cases r) (simp_all add: main_resume_def main_fields)
next
  case MainReturned
  then show ?thesis using assms by (simp add: main_resume_def)
next
  case (MainFailed x)
  then show ?thesis using assms by (simp add: main_resume_def)
qed

text \<open>A task past its first lines never sets a flag; it can only clear \<open>notification_active\<close>.\<close>

lemma cycle_resume_flags:
  assumes "pc (tasks s ! i) \<noteq> Created" "stop_requested s" "\<not> notification_active s"
  shows "stop_requested (cycle_resume i r s) \<and> \<not> notification_active (cycle_resume i r s)"
proof (cases "pc (tasks s ! i)")
  case Created
  then show ?thesis using assms(1) by simp
next
  case AwaitInitialSend
  show ?thesis
  proof (cases r)
    case (Returns v) then show ?thesis using assms by (simp add: resume_initial_send[OF AwaitInitialSend] all_fields)
  next
    case (Raises x) then show ?thesis using assms
      by (cases x) (simp_all add: resume_initial_send[OF AwaitInitialSend] all_fields)
  qed
next
  case SettleSleep
  have "loop_head i s = loop_end i s \<or> loop_head i s =
      send_notification_call max_text (set_task i ((tasks s ! i)\<lparr>pc := AwaitMaxSend\<rparr>) s)"
    using assms loop_head_cases(2,3)[of s i] by fastforce
  then show ?thesis using assms SettleSleep by (cases r) (auto simp add: resume_sleep all_fields)
next
  case AwaitAlertSend
  show ?thesis
  proof (cases r)
    case (Returns v) then show ?thesis using assms by (simp add: resume_alert_send[OF AwaitAlertSend] all_fields)
  next
    case (Raises x) then show ?thesis using assms
      by (cases x) (simp_all add: resume_alert_send[OF AwaitAlertSend] all_fields)
  qed
next
  case IntervalSleep
  have "loop_head i s = loop_end i s \<or> loop_head i s =
      send_notification_call max_text (set_task i ((tasks s ! i)\<lparr>pc := AwaitMaxSend\<rparr>) s)"
    using assms loop_head_cases(2,3)[of s i] by fastforce
  then show ?thesis using assms IntervalSleep by (cases r) (auto simp add: resume_sleep all_fields)
next
  case AwaitMaxSend
  show ?thesis
  proof (cases r)
    case (Returns v) then show ?thesis using assms by (simp add: resume_max_send[OF AwaitMaxSend] all_fields)
  next
    case (Raises x) then show ?thesis using assms
      by (cases x) (simp_all add: resume_max_send[OF AwaitMaxSend] all_fields)
  qed
next
  case Finished
  then show ?thesis using assms by (simp add: resume_done)
next
  case (Crashed x)
  then show ?thesis using assms by (simp add: resume_done[of s i x])
qed

text \<open>With a flag saying stop, a task keeps its counter, never returns to its first lines, and moves down \<open>stopped_fuel\<close>.\<close>

lemma cycle_next_stopped:
  assumes "pc c \<noteq> Created" "stop_requested s \<or> \<not> notification_active s"
  shows "pc (cycle_next s r c) \<noteq> Created"
    and "notification_count (cycle_next s r c) = notification_count c"
    and "cycle_next s r c = c \<or> stopped_fuel (cycle_next s r c) < stopped_fuel c"
  using assms
  by (cases "pc c"; cases r;
      auto simp add: cycle_next_def after_send_def after_sleep_def stopped_fuel_def)+


lemma cycle_resume_tasks_eq:
  assumes "j < length (tasks s)"
  shows "tasks (cycle_resume j r s) = (tasks s)[j := cycle_next s r (tasks s ! j)]"
proof -
  obtain c' where c': "tasks (cycle_resume j r s) = (tasks s)[j := c']"
    using cycle_resume_tasks by blast
  then have "tasks (cycle_resume j r s) ! j = c'" using assms by simp
  then show ?thesis using c' cycle_resume_task[OF assms, of r] by simp
qed

lemma stopped_step:
  assumes st: "stopped s" and e: "no_new_message e"
  shows "stopped (step e s)"
    and "map notification_count (tasks (step e s)) = map notification_count (tasks s)"
    and "length (tasks (step e s)) = length (tasks s)"
    and "i < length (tasks s) \<Longrightarrow>
           tasks (step e s) ! i = tasks s ! i
           \<or> stopped_fuel (tasks (step e s) ! i) < stopped_fuel (tasks s ! i)"
proof -
  from st have f: "stop_requested s" "\<not> notification_active s"
    and nc: "list_all (\<lambda>c. pc c \<noteq> Created) (tasks s)"
    by (simp_all add: stopped_def)
  obtain t r where tr: "e = Resume t r" using e by (cases e) auto
  have all: "stopped (step e s)
      \<and> map notification_count (tasks (step e s)) = map notification_count (tasks s)
      \<and> length (tasks (step e s)) = length (tasks s)
      \<and> (i < length (tasks s) \<longrightarrow>
           tasks (step e s) ! i = tasks s ! i
           \<or> stopped_fuel (tasks (step e s) ! i) < stopped_fuel (tasks s ! i))"
  proof (cases t)
    case MainTask
    then show ?thesis using tr st main_resume_flags[OF f, of r]
      by (simp add: stopped_def main_resume_tasks)
  next
    case (CycleTask j)
    show ?thesis
    proof (cases "j < length (tasks s)")
      case False
      then show ?thesis using tr CycleTask st by simp
    next
      case True
      let ?c = "tasks s ! j"
      have pj: "pc ?c \<noteq> Created" using nc True by (simp add: list_all_length)
      have fl: "stop_requested s \<or> \<not> notification_active s" using f by simp
      note nx = cycle_next_stopped[OF pj fl, of r]
      have eq: "tasks (step e s) = (tasks s)[j := cycle_next s r ?c]"
        using tr CycleTask True by (simp add: cycle_resume_tasks_eq)
      have 1: "list_all (\<lambda>c. pc c \<noteq> Created) (tasks (step e s))"
        unfolding eq using nc nx(1) True
        by (auto simp add: list_all_length nth_list_update split: if_splits)
      have 2: "map notification_count (tasks (step e s)) = map notification_count (tasks s)"
        unfolding eq using nx(2) True by (simp add: map_update list_update_same_conv)
      have 3: "stop_requested (step e s) \<and> \<not> notification_active (step e s)"
        using tr CycleTask True cycle_resume_flags[OF pj f, of r] by simp
      have 4: "tasks (step e s) ! i = tasks s ! i
           \<or> stopped_fuel (tasks (step e s) ! i) < stopped_fuel (tasks s ! i)"
        if "i < length (tasks s)"
        unfolding eq using nx(3) that True by (cases "i = j") auto
      show ?thesis using 1 2 3 4 eq by (simp add: stopped_def)
    qed
  qed
  then show "stopped (step e s)"
    and "map notification_count (tasks (step e s)) = map notification_count (tasks s)"
    and "length (tasks (step e s)) = length (tasks s)"
    and "i < length (tasks s) \<Longrightarrow>
           tasks (step e s) ! i = tasks s ! i
           \<or> stopped_fuel (tasks (step e s) ! i) < stopped_fuel (tasks s ! i)"
    by blast+
qed








section \<open>One cycle at a time\<close>



text \<open>A task of the cycle leaves the poller, the configuration and the handler alone.\<close>

lemma cycle_resume_rest:
  "main_pc (cycle_resume j r s) = main_pc s \<and> cfg (cycle_resume j r s) = cfg s
   \<and> handler_installed (cycle_resume j r s) = handler_installed s
   \<and> acks (cycle_resume j r s) = acks s"
proof (cases "pc (tasks s ! j)")
  case Created
  then show ?thesis
    by (cases r; cases "notification_active s") (simp_all add: resume_created loop_entry_cases all_fields)
next
  case AwaitInitialSend
  show ?thesis
  proof (cases r)
    case (Returns v) then show ?thesis using AwaitInitialSend by (simp add: resume_initial_send all_fields)
  next
    case (Raises x) then show ?thesis using AwaitInitialSend
      by (cases x) (simp_all add: resume_initial_send all_fields)
  qed
next
  case SettleSleep
  then show ?thesis
    by (cases r) (auto simp add: resume_sleep loop_head_def Let_def all_fields)
next
  case AwaitAlertSend
  show ?thesis
  proof (cases r)
    case (Returns v) then show ?thesis using AwaitAlertSend by (simp add: resume_alert_send all_fields)
  next
    case (Raises x) then show ?thesis using AwaitAlertSend
      by (cases x) (simp_all add: resume_alert_send all_fields)
  qed
next
  case IntervalSleep
  then show ?thesis
    by (cases r) (auto simp add: resume_sleep loop_head_def Let_def all_fields)
next
  case AwaitMaxSend
  show ?thesis
  proof (cases r)
    case (Returns v) then show ?thesis using AwaitMaxSend by (simp add: resume_max_send all_fields)
  next
    case (Raises x) then show ?thesis using AwaitMaxSend
      by (cases x) (simp_all add: resume_max_send all_fields)
  qed
next
  case Finished
  then show ?thesis by (simp add: resume_done)
next
  case (Crashed x)
  then show ?thesis by (simp add: resume_done[of s j x])
qed










section \<open>A stop command that is handled\<close>

lemma scan_first:
  assumes "list_all (\<lambda>p. matches_stop uid p = Inr False) pre" "matches_stop uid u = Inr True"
  shows "scan_updates uid (pre @ u # post) = Inr (Some u)"
  using assms by (induction pre) simp_all

lemma strip_empty: "py_lower (py_strip []) \<noteq> ascii ''/stop''"
  by (simp add: py_strip_def py_lower_def ascii_def)

lemma matches_stop_command:
  assumes "message u = Some bm" "from_user bm = Some uid" "btext bm = Some t"
    "py_lower (py_strip t) = ascii ''/stop''"
  shows "matches_stop uid u = Inr True"
proof -
  have "t \<noteq> []" using assms(4) strip_empty by auto
  then show ?thesis using assms by (simp add: matches_stop_def)
qed

lemma cycle_resume_sent_stopped:
  assumes "pc (tasks s ! i) \<noteq> Created" "stop_requested s" "\<not> notification_active s"
    and "notification_count (tasks s ! i) < max_notifications"
  shows "sent (cycle_resume i r s) = sent s"
proof (cases "pc (tasks s ! i)")
  case Created
  then show ?thesis using assms(1) by simp
next
  case AwaitInitialSend
  show ?thesis
  proof (cases r)
    case (Returns v) then show ?thesis by (simp add: resume_initial_send[OF AwaitInitialSend] all_fields)
  next
    case (Raises x) then show ?thesis
      by (cases x) (simp_all add: resume_initial_send[OF AwaitInitialSend] all_fields)
  qed
next
  case SettleSleep
  have "loop_head i s = loop_end i s" using assms loop_head_stopped[of s i] by simp
  then show ?thesis using SettleSleep by (cases r) (simp_all add: resume_sleep all_fields)
next
  case AwaitAlertSend
  show ?thesis
  proof (cases r)
    case (Returns v) then show ?thesis by (simp add: resume_alert_send[OF AwaitAlertSend] all_fields)
  next
    case (Raises x) then show ?thesis
      by (cases x) (simp_all add: resume_alert_send[OF AwaitAlertSend] all_fields)
  qed
next
  case IntervalSleep
  have "loop_head i s = loop_end i s" using assms loop_head_stopped[of s i] by simp
  then show ?thesis using IntervalSleep by (cases r) (simp_all add: resume_sleep all_fields)
next
  case AwaitMaxSend
  show ?thesis
  proof (cases r)
    case (Returns v) then show ?thesis by (simp add: resume_max_send[OF AwaitMaxSend] all_fields)
  next
    case (Raises x) then show ?thesis
      by (cases x) (simp_all add: resume_max_send[OF AwaitMaxSend] all_fields)
  qed
next
  case Finished
  then show ?thesis by (simp add: resume_done)
next
  case (Crashed x)
  then show ?thesis by (simp add: resume_done[of s i x])
qed

lemma quiet_no_new_message: "quiet uid e \<Longrightarrow> no_new_message e"
  by (cases e) simp_all

lemma silent_step:
  assumes sl: "silent s" and q: "quiet (user_id (cfg s)) e"
  shows "silent (step e s) \<and> sent (step e s) = sent s \<and> cfg (step e s) = cfg s"
proof -
  from sl have st: "stopped s" and p: "polling s"
    and lt: "list_all (\<lambda>n. n < max_notifications) (map notification_count (tasks s))"
    by (simp_all add: silent_def)
  note ss = stopped_step[OF st quiet_no_new_message[OF q]]
  have keep: "stopped (step e s)
      \<and> list_all (\<lambda>n. n < max_notifications) (map notification_count (tasks (step e s)))"
    using ss(1) ss(2) lt by simp
  obtain t r where tr: "e = Resume t r" using q by (cases e) auto
  show ?thesis
  proof (cases t)
    case MainTask
    then have "quiet (user_id (cfg s)) (Resume MainTask r)" using q tr by simp
    from quiet_main[OF p this] show ?thesis using keep tr MainTask by (simp add: silent_def)
  next
    case (CycleTask j)
    show ?thesis
    proof (cases "j < length (tasks s)")
      case False
      then show ?thesis using sl tr CycleTask by simp
    next
      case True
      have e: "step e s = cycle_resume j r s" using tr CycleTask True by simp
      have pj: "pc (tasks s ! j) \<noteq> Created" using st True by (simp add: stopped_def list_all_length)
      have nj: "notification_count (tasks s ! j) < max_notifications"
        using lt True by (simp add: list_all_length)
      have f: "stop_requested s" "\<not> notification_active s" using st by (simp_all add: stopped_def)
      have sn: "sent (step e s) = sent s"
        unfolding e by (rule cycle_resume_sent_stopped[OF pj f nj])
      have pl: "polling (step e s)" "cfg (step e s) = cfg s"
        unfolding e using p by (simp_all add: polling_def cycle_resume_rest)
      show ?thesis using keep sn pl by (simp add: silent_def)
    qed
  qed
qed

lemma silent_run:
  assumes "silent s" "list_all (quiet (user_id (cfg s))) evs"
  shows "silent (run evs s) \<and> sent (run evs s) = sent s
       \<and> map notification_count (tasks (run evs s)) = map notification_count (tasks s)"
  using assms
proof (induction evs arbitrary: s)
  case Nil
  then show ?case by simp
next
  case (Cons e evs)
  then have e: "quiet (user_id (cfg s)) e" and es: "list_all (quiet (user_id (cfg s))) evs"
    by simp_all
  note s1 = silent_step[OF Cons.prems(1) e]
  have st: "stopped s" using Cons.prems(1) by (simp add: silent_def)
  note c = stopped_step(2)[OF st quiet_no_new_message[OF e]]
  show ?case using Cons.IH[of "step e s"] s1 es c by simp
qed

lemma three_alerts_example_fields:
  "tasks three_alerts_example = [\<lparr>pc = IntervalSleep, new_message = media_message, notification_count = 3\<rparr>]"
  "notification_active three_alerts_example" "\<not> stop_requested three_alerts_example"
  "cfg three_alerts_example = example_config" "main_pc three_alerts_example = AwaitGetUpdates"
  "acks three_alerts_example = []"
  by (simp_all add: three_alerts_example_def three_alerts_def started_fields cycle_defs max_notifications_def)

lemma sorted_consumed:
  assumes "sorted (map update_id (pre @ [u]))"
  shows "list_all (consumed (offs @ [update_id u + 1])) (pre @ [u])"
  using assms
  by (auto simp add: sorted_append consumed_def list_all_iff list_ex_iff intro!: bexI[of _ "update_id u + 1"])

lemmas stop_eval = three_alerts_example_fields cycle_defs main_resume_def stop_found_def
  poll_error_def poll_begin_def max_notifications_def matches_stop_update user_id_example

text \<open>
  C2, as the code has it. The poller is waiting for \<open>get_updates\<close>; the batch it receives
  is \<open>pre @ u # post\<close>, where \<open>u\<close> comes from the configured user with a text that is
  \<open>/stop\<close> once stripped and lowercased, and every update of \<open>pre\<close> is scanned without an
  exception and does not match. Then in that turn both flags are set and one confirmation
  is handed to the bot, the tasks and the acknowledgements are untouched, and \<open>post\<close> is
  never looked at (the state is the one reached with the batch \<open>pre @ [u]\<close>). If the
  confirmation and the acknowledgement return, nothing more is sent, the one offset
  acknowledged is \<open>update_id u + 1\<close>, which confirms \<open>u\<close> and every update before it when
  the batch is ordered by \<open>update_id\<close>, and the poller sleeps with both flags still set.

  Scenario B: if \<open>s\<close> was reached from an idle monitor \<open>start\<close> by one channel message
  \<open>m\<close> and a run \<open>before\<close> without a stop command, and its task has sent three alerts,
  then after any run \<open>later\<close> in which no further channel message arrives and no poll
  finds another stop command, the messages sent since \<open>start\<close> are the initial
  notification, the alerts 1 to 3 and the confirmation, the counter is still 3,
  \<open>notification_active\<close> is False and \<open>stop_requested\<close> is True.
\<close>

theorem stop_command_handled:
  assumes mp: "main_pc s = AwaitGetUpdates"
    and pre: "list_all (\<lambda>p. matches_stop (user_id (cfg s)) p = Inr False) pre"
    and u: "message u = Some bm" "from_user bm = Some (user_id (cfg s))" "btext bm = Some t"
      "py_lower (py_strip t) = ascii ''/stop''"
  shows "(let a = step (Resume MainTask (Returns (VUpdates (pre @ u # post)))) s;
              c = run [Resume MainTask (Returns v), Resume MainTask (Returns w)] a in
            stop_requested a \<and> \<not> notification_active a
            \<and> sent a = sent s @ [\<lparr>chat_id = user_id (cfg s),
                  body = [0x2705] @ ascii '' Notifications stopped!'', parse_mode = None\<rparr>]
            \<and> tasks a = tasks s \<and> acks a = acks s
            \<and> a = step (Resume MainTask (Returns (VUpdates (pre @ [u])))) s
            \<and> stop_requested c \<and> \<not> notification_active c \<and> sent c = sent a
            \<and> acks c = acks s @ [update_id u + 1] \<and> main_pc c = PollSleep
            \<and> (sorted (map update_id (pre @ [u])) \<longrightarrow> list_all (consumed (acks c)) (pre @ [u]))
            \<and> (polling start \<and> handler_installed start \<and> tasks start = [] \<and> \<not> notification_active start
                \<and> list_all (quiet (user_id (cfg start))) before \<and> s = run (NewMessage m # before) start
                \<and> notification_count (tasks s ! 0) = 3
                \<and> (pc (tasks s ! 0) = AwaitAlertSend \<or> pc (tasks s ! 0) = IntervalSleep)
                \<and> list_all (quiet (user_id (cfg start))) later
                \<longrightarrow> (let f = run later a in
                      sent f = sent start @ map (notification start) (cycle_texts (cfg start) m 3)
                                 @ [confirmation start]
                      \<and> stop_requested f \<and> \<not> notification_active f
                      \<and> map notification_count (tasks f) = [3])))"
proof -
  let ?uid = "user_id (cfg s)"
  have mt: "matches_stop ?uid u = Inr True" by (rule matches_stop_command[OF u])
  have sc: "scan_updates ?uid (pre @ u # post) = Inr (Some u)" by (rule scan_first[OF pre mt])
  have sc': "scan_updates ?uid (pre @ [u]) = Inr (Some u)" by (rule scan_first[OF pre mt])
  let ?a = "stop_found u s"
  have a: "step (Resume MainTask (Returns (VUpdates (pre @ u # post)))) s = ?a"
    by (simp add: resume_get_updates(1)[OF mp sc])
  have a': "step (Resume MainTask (Returns (VUpdates (pre @ [u])))) s = ?a"
    by (simp add: resume_get_updates(1)[OF mp sc'])
  let ?ack = "?a\<lparr>acks := acks ?a @ [update_id u + 1], main_pc := AwaitAck\<rparr>"
  let ?c = "(log_line INFO (ascii ''Stop command received'') ?ack)\<lparr>main_pc := PollSleep\<rparr>"
  have c0: "main_pc ?ack = AwaitAck" by simp
  have c: "run [Resume MainTask (Returns v), Resume MainTask (Returns w)] ?a = ?c"
    by (simp add: resume_confirm(1)[OF stop_found_fields(1)] resume_ack(1)[OF c0])
  have fa: "stop_requested ?a" "\<not> notification_active ?a"
    "sent ?a = sent s @ [\<lparr>chat_id = user_id (cfg s),
        body = [0x2705] @ ascii '' Notifications stopped!'', parse_mode = None\<rparr>]"
    "tasks ?a = tasks s" "acks ?a = acks s"
    by (simp_all add: stop_found_fields confirmation_def confirm_text_def)
  have fc: "stop_requested ?c" "\<not> notification_active ?c" "sent ?c = sent ?a"
    "acks ?c = acks s @ [update_id u + 1]" "main_pc ?c = PollSleep"
    by (simp_all add: stop_found_fields log_line_fields)
  have cons: "list_all (consumed (acks ?c)) (pre @ [u])" if "sorted (map update_id (pre @ [u]))"
    unfolding fc(4) by (rule sorted_consumed[OF that])
  have p2: "sent (run later ?a) = sent start @ map (notification start) (cycle_texts (cfg start) m 3)
                                 @ [confirmation start]
        \<and> stop_requested (run later ?a) \<and> \<not> notification_active (run later ?a)
        \<and> map notification_count (tasks (run later ?a)) = [3]"
    if H: "polling start \<and> handler_installed start \<and> tasks start = [] \<and> \<not> notification_active start
        \<and> list_all (quiet (user_id (cfg start))) before \<and> s = run (NewMessage m # before) start
        \<and> notification_count (tasks s ! 0) = 3
        \<and> (pc (tasks s ! 0) = AwaitAlertSend \<or> pc (tasks s ! 0) = IntervalSleep)
        \<and> list_all (quiet (user_id (cfg start))) later"
  proof -
    from H have idle: "handler_installed start" "polling start" "tasks start = []" "\<not> notification_active start"
      and q1: "list_all (quiet (user_id (cfg start))) before"
      and s': "s = run (NewMessage m # before) start"
      and n: "notification_count (tasks s ! 0) = 3"
      and at: "pc (tasks s ! 0) = AwaitAlertSend \<or> pc (tasks s ! 0) = IntervalSleep"
      and q2: "list_all (quiet (user_id (cfg start))) later"
      by blast+
    have s: "s = run before (step (NewMessage m) start)" using s' by (simp only: run.simps)
    have inv: "quiet_inv start m s"
      unfolding s by (rule quiet_run[OF quiet_start[OF idle] q1])
    then have cf: "cfg s = cfg start" and l: "length (tasks s) = 1" and p: "polling s"
      by (simp_all add: quiet_inv_def)
    have sn: "sent s = sent start @ map (notification start) (cycle_texts (cfg start) m 3)"
      using inv n at by (auto simp add: quiet_inv_def Let_def)
    obtain c where tk: "tasks s = [c]" using l by (cases "tasks s") simp_all
    have c: "notification_count c = 3" "pc c = AwaitAlertSend \<or> pc c = IntervalSleep"
      using n at tk by simp_all
    have nc: "pc c \<noteq> Created" using c(2) by auto
    have sl: "silent ?a"
      using c(1) nc p
      by (simp add: silent_def stopped_def stop_found_fields polling_def tk max_notifications_def)
    have q2': "list_all (quiet (user_id (cfg ?a))) later" using q2 cf by (simp add: stop_found_fields)
    note r = silent_run[OF sl q2']
    have cnt: "map notification_count (tasks s) = [3]" using tk c(1) by simp
    have conf: "confirmation s = confirmation start" using cf by (simp add: confirmation_def)
    show ?thesis using r sn cnt conf
      by (simp add: silent_def stopped_def stop_found_fields)
  qed
  have cons': "sorted (map update_id (pre @ [u])) \<longrightarrow> list_all (consumed (acks ?c)) (pre @ [u])"
    by (rule impI) (rule cons)
  note imp = impI[OF p2]
  show ?thesis
    unfolding Let_def a a' c
    by (intro conjI) (rule fa fc cons' imp refl)+
qed

theorem stop_command_handled_witness:
  "sent (run after_stop (step (Resume MainTask (Returns (VUpdates [other_update, stop_update, stop_update])))
        three_alerts_example))
     = sent (started example_config)
       @ map (notification (started example_config)) (cycle_texts example_config media_message 3)
       @ [confirmation (started example_config)]
   \<and> stop_requested (run after_stop
        (step (Resume MainTask (Returns (VUpdates [other_update, stop_update, stop_update])))
           three_alerts_example))
   \<and> \<not> notification_active (run after_stop
        (step (Resume MainTask (Returns (VUpdates [other_update, stop_update, stop_update])))
           three_alerts_example))
   \<and> map notification_count (tasks (run after_stop
        (step (Resume MainTask (Returns (VUpdates [other_update, stop_update, stop_update])))
           three_alerts_example))) = [3]
   \<and> acks (run [Resume MainTask (Returns VNone), Resume MainTask (Returns VNone)]
        (step (Resume MainTask (Returns (VUpdates [other_update, stop_update, stop_update])))
           three_alerts_example)) = [42]"
proof -
  let ?bm = "\<lparr>from_user = Some 7, btext = Some (ascii '' /STOP '')\<rparr>"
  have h: "main_pc three_alerts_example = AwaitGetUpdates"
    "list_all (\<lambda>p. matches_stop (user_id (cfg three_alerts_example)) p = Inr False) [other_update]"
    "message stop_update = Some ?bm" "from_user ?bm = Some (user_id (cfg three_alerts_example))"
    "btext ?bm = Some (ascii '' /STOP '')"
    "py_lower (py_strip (ascii '' /STOP '')) = ascii ''/stop''"
    by (simp_all add: three_alerts_example_fields user_id_example other_update_quiet stop_update_def
        stop_text)
  have q: "list_all (quiet (user_id (cfg (started example_config)))) three_alerts"
    "list_all (quiet (user_id (cfg (started example_config)))) after_stop"
    by (simp_all add: started_fields user_id_example three_alerts_def after_stop_def
        other_update_quiet)
  have p: "polling (started example_config)"
    by (simp add: polling_def started_fields)
  have hyp: "polling (started example_config) \<and> handler_installed (started example_config)
      \<and> tasks (started example_config) = [] \<and> \<not> notification_active (started example_config)
      \<and> list_all (quiet (user_id (cfg (started example_config)))) three_alerts
      \<and> three_alerts_example = run (NewMessage media_message # three_alerts) (started example_config)
      \<and> notification_count (tasks three_alerts_example ! 0) = 3
      \<and> (pc (tasks three_alerts_example ! 0) = AwaitAlertSend
          \<or> pc (tasks three_alerts_example ! 0) = IntervalSleep)
      \<and> list_all (quiet (user_id (cfg (started example_config)))) after_stop"
    using p q three_alerts_example_def
    by (intro conjI) (simp_all only: started_fields three_alerts_example_fields, simp_all)
  note T = stop_command_handled[where post = "[stop_update]" and v = VNone and w = VNone
      and start = "started example_config" and before = three_alerts and m = media_message
      and later = after_stop, OF h, unfolded Let_def]
  from T have I: "acks (run [Resume MainTask (Returns VNone), Resume MainTask (Returns VNone)]
        (step (Resume MainTask (Returns (VUpdates ([other_update] @ stop_update # [stop_update]))))
           three_alerts_example)) = acks three_alerts_example @ [update_id stop_update + 1]"
    by blast
  from T hyp have C: "sent (run after_stop
        (step (Resume MainTask (Returns (VUpdates ([other_update] @ stop_update # [stop_update]))))
           three_alerts_example))
       = sent (started example_config)
         @ map (notification (started example_config))
             (cycle_texts (cfg (started example_config)) media_message 3)
         @ [confirmation (started example_config)]
     \<and> stop_requested (run after_stop
        (step (Resume MainTask (Returns (VUpdates ([other_update] @ stop_update # [stop_update]))))
           three_alerts_example))
     \<and> \<not> notification_active (run after_stop
        (step (Resume MainTask (Returns (VUpdates ([other_update] @ stop_update # [stop_update]))))
           three_alerts_example))
     \<and> map notification_count (tasks (run after_stop
        (step (Resume MainTask (Returns (VUpdates ([other_update] @ stop_update # [stop_update]))))
           three_alerts_example))) = [3]"
    by blast
  have l: "[other_update] @ stop_update # [stop_update] = [other_update, stop_update, stop_update]"
    by simp
  have k: "acks three_alerts_example @ [update_id stop_update + 1] = [42]"
    "cfg (started example_config) = example_config"
    by (simp_all add: three_alerts_example_fields stop_update_def started_fields)
  show ?thesis using I C unfolding l k by blast
qed

text \<open>
  The claim as worded (for every polled command of the configured user that reads
  \<open>/stop\<close>) fails in two ways. An update before the command whose message has no sender
  makes line 162 raise \<open>AttributeError\<close>: the poll is abandoned (line 178), no flag
  changes, nothing is sent or acknowledged, and the task sends alert 4. And when the
  confirmation fails, the command is not acknowledged (line 175 is not reached): the next
  poll delivers it again and a second confirmation is sent.
\<close>

theorem stop_command_handled_counterexample:
  "matches_stop 7 stop_update = Inr True
   \<and> \<not> stop_requested (step (Resume MainTask (Returns (VUpdates [senderless_update, stop_update])))
          three_alerts_example)
   \<and> notification_active (step (Resume MainTask (Returns (VUpdates [senderless_update, stop_update])))
          three_alerts_example)
   \<and> sent (step (Resume MainTask (Returns (VUpdates [senderless_update, stop_update])))
          three_alerts_example) = sent three_alerts_example
   \<and> acks (step (Resume MainTask (Returns (VUpdates [senderless_update, stop_update])))
          three_alerts_example) = []
   \<and> map notification_count (tasks (run
          [Resume MainTask (Returns (VUpdates [senderless_update, stop_update])),
           Resume (CycleTask 0) (Returns VNone)] three_alerts_example)) = [4]
   \<and> sent (run stop_twice three_alerts_example)
        = sent three_alerts_example @ [confirmation three_alerts_example, confirmation three_alerts_example]
   \<and> acks (run stop_twice three_alerts_example) = []"
proof -
  let ?a = "step (Resume MainTask (Returns (VUpdates [senderless_update, stop_update])))
          three_alerts_example"
  have 1: "\<not> stop_requested ?a" "notification_active ?a" "sent ?a = sent three_alerts_example"
    "acks ?a = []"
    by (simp_all add: stop_eval matches_stop_def senderless_update_def)
  have 2: "map notification_count (tasks (run
          [Resume MainTask (Returns (VUpdates [senderless_update, stop_update])),
           Resume (CycleTask 0) (Returns VNone)] three_alerts_example)) = [4]"
    by (simp add: stop_eval matches_stop_def senderless_update_def)
  have 3: "sent (run stop_twice three_alerts_example)
        = sent three_alerts_example @ [confirmation three_alerts_example, confirmation three_alerts_example]"
    "acks (run stop_twice three_alerts_example) = []"
    by (simp_all add: stop_twice_def stop_eval confirmation_def)
  show ?thesis using matches_stop_update 1 2 3 by blast
qed

end
